theory Spec2Isabelle
  imports Complex_Main "HOL-Library.Sublist" "HOL-Library.Multiset"
begin

section \<open>JavaScript strings\<close>

text \<open>
  A JavaScript string is a sequence of UTF-16 code units; a code unit is modelled as a
  natural number and a string as a list of them, so that \<open>length\<close> is the
  \<^verbatim>\<open>.length\<close> of the source. \<open>js\<close> turns an Isabelle literal into such a string.
  Confidences and sizes are exact rationals: the theorems about them read literals of the
  source and compare sizes. The ratings of the feedback log are IEEE doubles, and the
  arithmetic on them is modelled with its rounding.
\<close>

type_synonym jsstring = "nat list"

definition js :: "string \<Rightarrow> jsstring" where
  "js s = map of_char s"

text \<open>White space as \<^verbatim>\<open>String.prototype.trim\<close> and the regular expression class
  \<^verbatim>\<open>\s\<close> define it: tab, line feed, vertical tab, form feed, carriage return, space,
  no-break space, the Unicode space separators, the line and paragraph separators and the
  byte order mark.\<close>

definition isSpace :: "nat \<Rightarrow> bool" where
  "isSpace c \<longleftrightarrow>
     (9 \<le> c \<and> c \<le> 13) \<or> c = 32 \<or> c = 160 \<or> c = 5760 \<or> (8192 \<le> c \<and> c \<le> 8202) \<or>
     c = 8232 \<or> c = 8233 \<or> c = 8239 \<or> c = 8287 \<or> c = 12288 \<or> c = 65279"

definition isDigit :: "nat \<Rightarrow> bool" where
  "isDigit c \<longleftrightarrow> 48 \<le> c \<and> c \<le> 57"

definition isWordChar :: "nat \<Rightarrow> bool" where
  "isWordChar c \<longleftrightarrow> (97 \<le> c \<and> c \<le> 122) \<or> (65 \<le> c \<and> c \<le> 90) \<or> isDigit c \<or> c = 95"

definition lowerChar :: "nat \<Rightarrow> nat" where
  "lowerChar c = (if 65 \<le> c \<and> c \<le> 90 then c + 32 else c)"

definition upperChar :: "nat \<Rightarrow> nat" where
  "upperChar c = (if 97 \<le> c \<and> c \<le> 122 then c - 32 else c)"

definition isAscii :: "jsstring \<Rightarrow> bool" where
  "isAscii s \<longleftrightarrow> list_all (\<lambda>c. c < 128) s"

subsection \<open>The host\<close>

text \<open>
  What the plugin takes from its environment:
  \<^item> the case mapping of the strings that hold a code unit outside ASCII, which follows
    the Unicode tables of the engine (it is not a map over the code units: it can change
    the length of a string and depends on the context of a letter);
  \<^item> the conversion of a number to a string in a template literal;
  \<^item> the clock, \<^verbatim>\<open>new Date()\<close>, in milliseconds since the epoch;
  \<^item> the offset of local time from UTC in milliseconds, \<^verbatim>\<open>LocalTZA(t, isUTC)\<close> of
    ECMAScript, where \<open>t\<close> is a UTC time when \<open>isUTC\<close> holds and a local time
    otherwise.
\<close>

record Host =
  upperCaseNonAscii :: "jsstring \<Rightarrow> jsstring"
  lowerCaseNonAscii :: "jsstring \<Rightarrow> jsstring"
  numberToString :: "rat \<Rightarrow> jsstring"
  now :: int
  LocalTZA :: "int \<Rightarrow> bool \<Rightarrow> int"

text \<open>\<^verbatim>\<open>String.prototype.toLowerCase\<close> and \<^verbatim>\<open>toUpperCase\<close>: on a string of ASCII code
  units they map the letters \<^verbatim>\<open>A\<close> to \<^verbatim>\<open>Z\<close> and \<^verbatim>\<open>a\<close> to \<^verbatim>\<open>z\<close> and leave the other
  code units; on any other string the tables of the host decide.\<close>

definition toLowerCase :: "Host \<Rightarrow> jsstring \<Rightarrow> jsstring" where
  "toLowerCase host s = (if isAscii s then map lowerChar s else lowerCaseNonAscii host s)"

definition toUpperCase :: "Host \<Rightarrow> jsstring \<Rightarrow> jsstring" where
  "toUpperCase host s = (if isAscii s then map upperChar s else upperCaseNonAscii host s)"

definition trim :: "jsstring \<Rightarrow> jsstring" where
  "trim s = rev (dropWhile isSpace (rev (dropWhile isSpace s)))"

text \<open>\<^verbatim>\<open>s.includes(w)\<close>: \<open>w\<close> occurs in \<open>s\<close> as a contiguous substring.\<close>

fun includes_str :: "jsstring \<Rightarrow> jsstring \<Rightarrow> bool" where
  "includes_str [] w = (w = [])"
| "includes_str (c # cs) w = (prefix w (c # cs) \<or> includes_str cs w)"

text \<open>\<^verbatim>\<open>s.split(/\s+/)\<close>: the pieces between maximal runs of white space. A run at the
  start or at the end leaves an empty piece there, and the empty string splits into one
  empty piece. The first argument is the piece read so far.\<close>

function splitWs :: "jsstring \<Rightarrow> jsstring \<Rightarrow> jsstring list" where
  "splitWs cur [] = [cur]"
| "splitWs cur (c # cs) =
     (if isSpace c then cur # splitWs [] (dropWhile isSpace cs)
      else splitWs (cur @ [c]) cs)"
  by pat_completeness auto
termination
  by (relation "measure (\<lambda>(cur, s). length s)")
     (auto simp: length_dropWhile_le less_Suc_eq_le)

section \<open>TextAnalyzer (src/core/text-analyzer.ts)\<close>

datatype Role = Headline | Subhead | Body | Cta | Tag

text \<open>\<^verbatim>\<open>TextInput { text; type? }\<close> and \<^verbatim>\<open>AnalyzedText\<close>. The fields \<^verbatim>\<open>text\<close> and
  \<^verbatim>\<open>type\<close> carry a prefix, \<open>in_\<close> on the input and \<open>a_\<close> on the result.\<close>

record TextInput =
  in_text :: jsstring
  in_type :: "Role option"

record AnalyzedText =
  a_text :: jsstring
  a_type :: Role
  wordCount :: nat
  charCount :: nat
  hasAction :: bool
  isPunctated :: bool
  confidence :: rat

definition CTA_WORDS :: "jsstring list" where
  "CTA_WORDS = map js
     [''learn'', ''get'', ''join'', ''start'', ''try'', ''discover'', ''explore'',
      ''sign up'', ''subscribe'', ''download'', ''buy'', ''shop'', ''order'',
      ''contact'', ''call'', ''book'', ''register'', ''apply'', ''claim'',
      ''read'', ''watch'', ''listen'', ''view'', ''see'', ''check'',
      ''click'', ''tap'', ''swipe'', ''scroll'']"

text \<open>A pattern \<^verbatim>\<open>/^(w1|...|wn)$/i\<close>: the whole string is one of the words, code unit
  by code unit after canonicalisation. The words are ASCII, and the canonicalisation
  of a pattern without the flag \<^verbatim>\<open>u\<close> maps an ASCII letter to its capital and never
  maps a code unit outside ASCII to an ASCII one (ECMAScript, Canonicalize), so a code
  unit of the string matches a letter of a word exactly when \<open>upperChar\<close> maps both to
  the same code unit.\<close>

definition matchesWordI :: "string list \<Rightarrow> jsstring \<Rightarrow> bool" where
  "matchesWordI ws s \<longleftrightarrow> map upperChar s \<in> set (map (\<lambda>w. map upperChar (js w)) ws)"

text \<open>\<^verbatim>\<open>/^#\w+$/\<close>\<close>

definition matchesHashtag :: "jsstring \<Rightarrow> bool" where
  "matchesHashtag s \<longleftrightarrow>
     (case s of [] \<Rightarrow> False | c # cs \<Rightarrow> c = 35 \<and> cs \<noteq> [] \<and> list_all isWordChar cs)"

text \<open>\<^verbatim>\<open>/^\d{1,2}\/\d{1,2}$/\<close>\<close>

definition matchesDate :: "jsstring \<Rightarrow> bool" where
  "matchesDate s \<longleftrightarrow>
     (let a = takeWhile isDigit s; r = dropWhile isDigit s
      in 1 \<le> length a \<and> length a \<le> 2 \<and>
         (case r of [] \<Rightarrow> False
          | c # b \<Rightarrow> c = 47 \<and> 1 \<le> length b \<and> length b \<le> 2 \<and> list_all isDigit b))"

definition TAG_PATTERNS :: "(jsstring \<Rightarrow> bool) list" where
  "TAG_PATTERNS =
     [matchesWordI [''new'', ''hot'', ''sale'', ''trending'', ''featured'', ''exclusive'', ''limited''],
      matchesWordI [''update'', ''news'', ''blog'', ''post'', ''article''],
      matchesWordI [''tip'', ''guide'', ''howto'', ''how-to'', ''tutorial''],
      matchesHashtag,
      matchesDate]"

definition countWords :: "jsstring \<Rightarrow> nat" where
  "countWords t = length (filter (\<lambda>word. length word > 0) (splitWs [] (trim t)))"

text \<open>The character class of the five arrow glyphs U+2192, U+279C, U+27A1, U+25BA and
  U+25B6.\<close>

definition isArrow :: "nat \<Rightarrow> bool" where
  "isArrow c \<longleftrightarrow> c = 8594 \<or> c = 10140 \<or> c = 10145 \<or> c = 9658 \<or> c = 9654"

definition hasActionWord :: "Host \<Rightarrow> jsstring \<Rightarrow> bool" where
  "hasActionWord host t =
     (let lower = toLowerCase host t
      in if list_ex (\<lambda>word. includes_str lower word) CTA_WORDS then True
         else list_ex isArrow t)"

text \<open>\<^verbatim>\<open>/[.!?]$/\<close> on the trimmed text.\<close>

definition hasPunctuation :: "jsstring \<Rightarrow> bool" where
  "hasPunctuation t =
     (let s = trim t in s \<noteq> [] \<and> (last s = 46 \<or> last s = 33 \<or> last s = 63))"

definition isTag :: "Host \<Rightarrow> jsstring \<Rightarrow> bool" where
  "isTag host t =
     (let trimmed = trim t
      in if countWords trimmed > 3 then False
         else if list_ex (\<lambda>pattern. pattern trimmed) TAG_PATTERNS then True
         else if trimmed = toUpperCase host trimmed \<and> length trimmed \<le> 15 then True
         else False)"

definition detectType :: "Host \<Rightarrow> jsstring \<Rightarrow> AnalyzedText" where
  "detectType host t =
     (let wc = countWords t;
          cc = length t;
          act = hasActionWord host t;
          punct = hasPunctuation t;
          (ty, conf) =
            (if isTag host t then (Tag, 0.9)
             else if act \<and> wc \<le> 5 then (Cta, 0.85)
             else if wc \<le> 10 \<and> \<not> punct then (Headline, 0.8)
             else if wc \<le> 30 then (Subhead, 0.75)
             else (Body, 0.7))
      in \<lparr>a_text = t, a_type = ty, wordCount = wc, charCount = cc,
          hasAction = act, isPunctated = punct, confidence = conf\<rparr>)"

text \<open>The body of the loop of \<^verbatim>\<open>analyze\<close>: an input with a type keeps it, with
  confidence 1; any other input goes through \<open>detectType\<close>.\<close>

definition classify :: "Host \<Rightarrow> TextInput \<Rightarrow> AnalyzedText" where
  "classify host inp =
     (case in_type inp of
        Some ty \<Rightarrow>
          \<lparr>a_text = in_text inp, a_type = ty, wordCount = countWords (in_text inp),
           charCount = length (in_text inp), hasAction = hasActionWord host (in_text inp),
           isPunctated = hasPunctuation (in_text inp), confidence = 1\<rparr>
      | None \<Rightarrow> detectType host (in_text inp))"

text \<open>The first loop of \<^verbatim>\<open>ensureHierarchy\<close>; the flag is \<^verbatim>\<open>foundFirst\<close>.\<close>

fun demoteRest :: "bool \<Rightarrow> AnalyzedText list \<Rightarrow> AnalyzedText list" where
  "demoteRest foundFirst [] = []"
| "demoteRest foundFirst (r # rs) =
     (if a_type r = Headline
      then (if foundFirst then r\<lparr>a_type := Subhead, confidence := confidence r * 0.8\<rparr> else r)
             # demoteRest True rs
      else r # demoteRest foundFirst rs)"

definition isCandidate :: "AnalyzedText \<Rightarrow> bool" where
  "isCandidate r \<longleftrightarrow> wordCount r \<le> 15 \<and> a_type r \<noteq> Cta \<and> a_type r \<noteq> Tag"

text \<open>\<^verbatim>\<open>adjusted.find(...)\<close> followed by the update of the element found.\<close>

fun promoteFirst :: "AnalyzedText list \<Rightarrow> AnalyzedText list" where
  "promoteFirst [] = []"
| "promoteFirst (r # rs) =
     (if isCandidate r then r\<lparr>a_type := Headline, confidence := confidence r * 0.7\<rparr> # rs
      else r # promoteFirst rs)"

text \<open>\<^verbatim>\<open>typeOrder.indexOf\<close> for \<^verbatim>\<open>['tag', 'headline', 'subhead', 'body', 'cta']\<close>.\<close>

fun typeOrder :: "Role \<Rightarrow> int" where
  "typeOrder Tag = 0"
| "typeOrder Headline = 1"
| "typeOrder Subhead = 2"
| "typeOrder Body = 3"
| "typeOrder Cta = 4"

text \<open>The two adjustments of \<^verbatim>\<open>ensureHierarchy\<close>, before the final sort. Both tests read
  \<^verbatim>\<open>headlines\<close>, computed once from the list as it came in.\<close>

definition adjust :: "AnalyzedText list \<Rightarrow> AnalyzedText list" where
  "adjust results =
     (let headlines = filter (\<lambda>r. a_type r = Headline) results;
          adjusted = (if length headlines > 1 then demoteRest False results else results)
      in if length headlines = 0 \<and> length adjusted > 0 then promoteFirst adjusted
         else adjusted)"

text \<open>\<^verbatim>\<open>Array.prototype.sort\<close> is stable, as the insertion sort \<open>sort_key\<close> is.\<close>

definition ensureHierarchy :: "AnalyzedText list \<Rightarrow> AnalyzedText list" where
  "ensureHierarchy results = sort_key (\<lambda>r. typeOrder (a_type r)) (adjust results)"

definition analyze :: "Host \<Rightarrow> TextInput list \<Rightarrow> AnalyzedText list" where
  "analyze host inputs = ensureHierarchy (map (classify host) inputs)"

subsection \<open>The tag rule, as the specification words it\<close>

text \<open>A short label: one of the status, news and how-to words whatever the case of its
  letters, a hashtag token, or a date of the form \<^verbatim>\<open>d/d\<close>, \<^verbatim>\<open>d/dd\<close>, \<^verbatim>\<open>dd/d\<close> or
  \<^verbatim>\<open>dd/dd\<close>.\<close>

definition labelWords :: "string list" where
  "labelWords =
     [''new'', ''hot'', ''sale'', ''trending'', ''featured'', ''exclusive'', ''limited'',
      ''update'', ''news'', ''blog'', ''post'', ''article'',
      ''tip'', ''guide'', ''howto'', ''how-to'', ''tutorial'']"

definition isHashtag :: "jsstring \<Rightarrow> bool" where
  "isHashtag s \<longleftrightarrow> 2 \<le> length s \<and> hd s = 35 \<and> list_all isWordChar (tl s)"

definition isDateLike :: "jsstring \<Rightarrow> bool" where
  "isDateLike s \<longleftrightarrow>
     (case s of
        [a, x, b] \<Rightarrow> isDigit a \<and> x = 47 \<and> isDigit b
      | [a, x, y, z] \<Rightarrow>
          (isDigit a \<and> x = 47 \<and> isDigit y \<and> isDigit z) \<or>
          (isDigit a \<and> isDigit x \<and> y = 47 \<and> isDigit z)
      | [a, b, x, c, d] \<Rightarrow> isDigit a \<and> isDigit b \<and> x = 47 \<and> isDigit c \<and> isDigit d
      | _ \<Rightarrow> False)"

definition isShortLabel :: "jsstring \<Rightarrow> bool" where
  "isShortLabel s \<longleftrightarrow> map lowerChar s \<in> set (map js labelWords) \<or> isHashtag s \<or> isDateLike s"

text \<open>Entirely upper-case: an ASCII string without a small letter; any other string when
  the tables of the host map it to itself.\<close>

definition isUpperCased :: "Host \<Rightarrow> jsstring \<Rightarrow> bool" where
  "isUpperCased host s \<longleftrightarrow>
     (if isAscii s then \<not> list_ex (\<lambda>c. 97 \<le> c \<and> c \<le> 122) s
      else upperCaseNonAscii host s = s)"

section \<open>The node tree\<close>

text \<open>
  The plugin works on the scene nodes of the host. A node has a type, a name and paint,
  and a node of a container type (a frame, a group) also has children; \<open>Parent\<close> is a
  node for which \<^verbatim>\<open>'children' in node\<close> holds, \<open>Leaf\<close> one for which it does not. The
  attributes are the properties the plugin reads or writes. \<open>fontName\<close> is read on text
  nodes only. The plugin tells frames, groups, texts and ellipses from the other types of
  the host; \<open>RECTANGLE\<close> is one of those, \<open>OTHER\<close> stands for the rest.
\<close>

datatype NodeType = FRAME | GROUP | TEXT | ELLIPSE | RECTANGLE | OTHER

record RGB =
  red :: rat
  green :: rat
  blue :: rat

record ColorStop =
  position :: rat
  color :: RGB
  alpha :: rat

datatype Paint = SOLID RGB | GRADIENT_LINEAR "rat list list" "ColorStop list"

datatype FontName = Mixed | Font (family: jsstring) (style: jsstring)

record NodeAttrs =
  node_id :: string
  name :: jsstring
  type :: NodeType
  fills :: "Paint list"
  visible :: bool
  width :: rat
  height :: rat
  fontName :: FontName

datatype Node = Leaf NodeAttrs | Parent NodeAttrs "Node list"

fun attrs :: "Node \<Rightarrow> NodeAttrs" where
  "attrs (Leaf a) = a"
| "attrs (Parent a cs) = a"

text \<open>\<^verbatim>\<open>node.children\<close>; a frame always has children, and the plugin reads the property
  of a node without them only behind a test.\<close>

fun children :: "Node \<Rightarrow> Node list" where
  "children (Leaf a) = []"
| "children (Parent a cs) = cs"

fun mapAttrs :: "(NodeAttrs \<Rightarrow> NodeAttrs) \<Rightarrow> Node \<Rightarrow> Node" where
  "mapAttrs f (Leaf a) = Leaf (f a)"
| "mapAttrs f (Parent a cs) = Parent (f a) cs"

definition nameOf :: "Node \<Rightarrow> jsstring" where
  "nameOf n = name (attrs n)"

definition typeOf :: "Node \<Rightarrow> NodeType" where
  "typeOf n = type (attrs n)"

section \<open>Configuration (src/config/defaults.ts)\<close>

text \<open>\<^verbatim>\<open>LAYER_NAMES\<close>, one constant for each entry.\<close>

definition LAYER_root :: jsstring where "LAYER_root = js ''Asset Frame''"
definition LAYER_content :: jsstring where "LAYER_content = js ''content''"
definition LAYER_headline :: jsstring where "LAYER_headline = js ''headline''"
definition LAYER_subhead :: jsstring where "LAYER_subhead = js ''subhead''"
definition LAYER_body :: jsstring where "LAYER_body = js ''body''"
definition LAYER_cta :: jsstring where "LAYER_cta = js ''cta''"
definition LAYER_tag :: jsstring where "LAYER_tag = js ''tag''"
definition LAYER_branding :: jsstring where "LAYER_branding = js ''branding''"
definition LAYER_logo :: jsstring where "LAYER_logo = js ''logo''"
definition LAYER_tagline :: jsstring where "LAYER_tagline = js ''tagline''"
definition LAYER_decorative :: jsstring where "LAYER_decorative = js ''decorative''"
definition LAYER_glow :: jsstring where "LAYER_glow = js ''glow''"
definition LAYER_accentShape :: jsstring where "LAYER_accentShape = js ''accent-shape''"
definition LAYER_pattern :: jsstring where "LAYER_pattern = js ''pattern''"
definition LAYER_background :: jsstring where "LAYER_background = js ''background''"

section \<open>LayerManager (src/core/layer-manager.ts)\<close>

text \<open>The rules of \<^verbatim>\<open>getNormalizedName\<close>, in the order of the source: the block for
  text nodes, the block for frames and groups, the logo rule, the glow rule. A block that
  matches no rule falls through to the next.\<close>

definition getNormalizedName :: "Host \<Rightarrow> Node \<Rightarrow> jsstring option" where
  "getNormalizedName host node =
     (let currentName = toLowerCase host (nameOf node);
          has = (\<lambda>w. includes_str currentName (js w));
          ty = typeOf node
      in if ty = TEXT \<and> has ''head'' \<and> \<not> has ''sub'' then Some LAYER_headline
         else if ty = TEXT \<and> has ''sub'' then Some LAYER_subhead
         else if ty = TEXT \<and> (has ''body'' \<or> has ''description'') then Some LAYER_body
         else if ty = TEXT \<and> (has ''cta'' \<or> has ''button'') then Some LAYER_cta
         else if ty = TEXT \<and> (has ''tag'' \<or> has ''label'') then Some LAYER_tag
         else if (ty = FRAME \<or> ty = GROUP) \<and> (has ''content'' \<or> has ''text'')
           then Some LAYER_content
         else if (ty = FRAME \<or> ty = GROUP) \<and> (has ''brand'' \<or> has ''logo'')
           then Some LAYER_branding
         else if (ty = FRAME \<or> ty = GROUP) \<and> (has ''decor'' \<or> has ''effect'')
           then Some LAYER_decorative
         else if (ty = FRAME \<or> ty = GROUP) \<and> (has ''background'' \<or> has ''bg'')
           then Some LAYER_background
         else if has ''logo'' \<and> ty \<noteq> TEXT then Some LAYER_logo
         else if ty = ELLIPSE \<and> (has ''glow'' \<or> has ''blur'') then Some LAYER_glow
         else None)"

text \<open>The first two statements of the loop body of \<^verbatim>\<open>normalizeLayerNames\<close>:
  \<^verbatim>\<open>if (normalizedName) child.name = normalizedName\<close>. Every name of the table is a
  non-empty string, so the test holds whenever a rule matched.\<close>

definition renameChild :: "Host \<Rightarrow> Node \<Rightarrow> Node" where
  "renameChild host child =
     (case getNormalizedName host child of
        Some normalizedName \<Rightarrow> mapAttrs (\<lambda>a. a\<lparr>name := normalizedName\<rparr>) child
      | None \<Rightarrow> child)"

function normalizeLayerNames :: "Host \<Rightarrow> Node \<Rightarrow> Node" where
  "normalizeLayerNames host (Leaf a) = Leaf a"
| "normalizeLayerNames host (Parent a cs) =
     Parent a (map (\<lambda>child. normalizeLayerNames host (renameChild host child)) cs)"
  by pat_completeness auto
termination
proof (relation "measure (\<lambda>(host, node). size node)")
  show "wf (measure (\<lambda>(host :: Host, node :: Node). size node))" by simp
next
  fix host :: Host and a :: NodeAttrs and cs :: "Node list" and child :: Node
  assume "child \<in> set cs"
  then have "size child < size (Parent a cs)"
    by (induction cs) auto
  moreover have "size (renameChild host child) = size child"
    by (cases child) (simp_all add: renameChild_def split: option.split)
  ultimately show "((host, renameChild host child), (host, Parent a cs))
      \<in> measure (\<lambda>(host, node). size node)" by simp
qed

text \<open>\<^verbatim>\<open>frame.insertChild(0, child)\<close> of the host, for a child of the frame: the child
  moves to the front of the children. A child is identified by its position in the list
  the frame had when \<^verbatim>\<open>organizeLayerOrder\<close> was called, so that two children that look
  alike remain two children.\<close>

definition insertChild0 :: "nat \<times> Node \<Rightarrow> (nat \<times> Node) list \<Rightarrow> (nat \<times> Node) list" where
  "insertChild0 child cur = child # remove1 child cur"

definition layerOrder :: "jsstring list" where
  "layerOrder = [LAYER_background, LAYER_decorative, LAYER_branding, LAYER_content]"

definition organizeLayerOrder :: "Node \<Rightarrow> Node" where
  "organizeLayerOrder frame =
     (case frame of
        Leaf a \<Rightarrow> frame
      | Parent a cs \<Rightarrow>
          if length cs = 0 then frame
          else
            let frameChildren = zip [0..<length cs] cs;
                orderedChildren =
                  concat (map (\<lambda>nm. case find (\<lambda>c. nameOf (snd c) = nm) frameChildren of
                                        Some child \<Rightarrow> [child] | None \<Rightarrow> [])
                              layerOrder);
                otherChildren = filter (\<lambda>child. child \<notin> set orderedChildren) frameChildren;
                allChildren = orderedChildren @ otherChildren
            in Parent a (map snd (fold insertChild0 (rev allChildren) frameChildren)))"

text \<open>The outcome of the reordering, said without positions: the first child of each
  name of a list, for the names that occur, and the children that remain when the first
  child of each of those names is taken out.\<close>

fun dropFirst :: "('a \<Rightarrow> bool) \<Rightarrow> 'a list \<Rightarrow> 'a list" where
  "dropFirst P [] = []"
| "dropFirst P (x # xs) = (if P x then xs else x # dropFirst P xs)"

definition firstNamed :: "jsstring list \<Rightarrow> Node list \<Rightarrow> Node list" where
  "firstNamed names cs =
     concat (map (\<lambda>nm. case find (\<lambda>c. nameOf c = nm) cs of Some c \<Rightarrow> [c] | None \<Rightarrow> []) names)"

definition remaining :: "jsstring list \<Rightarrow> Node list \<Rightarrow> Node list" where
  "remaining names cs = fold (\<lambda>nm. dropFirst (\<lambda>c. nameOf c = nm)) names cs"

text \<open>The reading of the reordering as a partition by name: every child that bears one of
  the names, grouped by name in the order of the list, then the children of other names.\<close>

definition partitionByName :: "jsstring list \<Rightarrow> Node list \<Rightarrow> Node list" where
  "partitionByName names cs =
     concat (map (\<lambda>nm. filter (\<lambda>c. nameOf c = nm) cs) names)
       @ filter (\<lambda>c. nameOf c \<notin> set names) cs"

definition applyNaming :: "Host \<Rightarrow> Node \<Rightarrow> Node" where
  "applyNaming host node = organizeLayerOrder (normalizeLayerNames host node)"

text \<open>\<^verbatim>\<open>getLayerKey\<close> looks the name up in a table whose keys and values are the same ten
  names. A name outside the table gives \<^verbatim>\<open>null\<close>, or, for a property name of
  \<^verbatim>\<open>Object.prototype\<close>, a function or an object, which \<^verbatim>\<open>mapStructure\<close> files under a
  key that is none of the three that \<^verbatim>\<open>validate\<close> reads; both count as absent here.\<close>

definition getLayerKey :: "jsstring \<Rightarrow> jsstring option" where
  "getLayerKey nm =
     (if nm \<in> set [LAYER_content, LAYER_branding, LAYER_decorative, LAYER_background,
                    LAYER_headline, LAYER_subhead, LAYER_body, LAYER_cta, LAYER_tag, LAYER_logo]
      then Some nm else None)"

text \<open>\<^verbatim>\<open>mapStructure\<close>: the keys of the direct children. The value stored under a key
  (\<^verbatim>\<open>true\<close> or the keys of the grandchildren) is truthy and \<^verbatim>\<open>validate\<close> reads no more
  than that, so the structure is the list of keys present.\<close>

definition mapStructure :: "Node \<Rightarrow> jsstring list" where
  "mapStructure node = List.map_filter (\<lambda>child. getLayerKey (nameOf child)) (children node)"

record ValidationResult =
  valid :: bool
  errors :: "jsstring list"
  warnings :: "jsstring list"
  suggestions :: "jsstring list"

definition validate :: "Node \<Rightarrow> ValidationResult" where
  "validate node =
     (if typeOf node \<noteq> FRAME
      then \<lparr>valid = False, errors = [js ''Root node must be a FRAME''], warnings = [],
            suggestions = []\<rparr>
      else
        let structure = mapStructure node;
            errs = (if LAYER_content \<notin> set structure
                    then [js ''Missing required layer: '' @ LAYER_content] else []);
            warns = (if LAYER_branding \<notin> set structure
                     then [js ''Missing layer: '' @ LAYER_branding] else []);
            suggs = (if LAYER_decorative \<notin> set structure
                     then [js ''Consider adding a decorative group''] else [])
        in \<lparr>valid = (length errs = 0), errors = errs, warnings = warns, suggestions = suggs\<rparr>)"

text \<open>\<^verbatim>\<open>findLayer\<close>: the first node of that name, in pre-order.\<close>

fun findLayer :: "Node \<Rightarrow> jsstring \<Rightarrow> Node option"
  and findLayerIn :: "Node list \<Rightarrow> jsstring \<Rightarrow> Node option" where
  "findLayer (Leaf a) layerName = (if name a = layerName then Some (Leaf a) else None)"
| "findLayer (Parent a cs) layerName =
     (if name a = layerName then Some (Parent a cs) else findLayerIn cs layerName)"
| "findLayerIn [] layerName = None"
| "findLayerIn (child # cs) layerName =
     (case findLayer child layerName of
        Some found \<Rightarrow> Some found
      | None \<Rightarrow> findLayerIn cs layerName)"

text \<open>\<^verbatim>\<open>getTextLayers\<close>: the text nodes, in pre-order.\<close>

fun getTextLayers :: "Node \<Rightarrow> Node list" where
  "getTextLayers (Leaf a) = (if type a = TEXT then [Leaf a] else [])"
| "getTextLayers (Parent a cs) =
     (if type a = TEXT then [Parent a cs] else []) @ concat (map getTextLayers cs)"

section \<open>Themes and colours (src/config/defaults.ts)\<close>

text \<open>
  A value found under a key of \<^verbatim>\<open>THEMES\<close>, as \<^verbatim>\<open>ThemeEngine.apply\<close> reads it: the three
  colour keys and the glow flag. A property that the value does not have reads as
  \<^verbatim>\<open>undefined\<close>, which is \<open>None\<close> for a key and \<open>False\<close> for the flag, read for its
  truth value only. The registered themes have all four; their \<^verbatim>\<open>name\<close> and
  \<^verbatim>\<open>description\<close> are not read.
\<close>

record ThemeDefinition =
  theme_background :: "jsstring option"
  theme_text :: "jsstring option"
  theme_accent :: "jsstring option"
  useGlow :: bool

definition THEMES :: "(jsstring \<times> ThemeDefinition) list" where
  "THEMES =
     [(js ''dark'', \<lparr>theme_background = Some (js ''background_dark''),
                    theme_text = Some (js ''text_light''),
                    theme_accent = Some (js ''primary''), useGlow = True\<rparr>),
      (js ''light'', \<lparr>theme_background = Some (js ''background_light''),
                     theme_text = Some (js ''text_dark''),
                     theme_accent = Some (js ''primary''), useGlow = False\<rparr>),
      (js ''bold'', \<lparr>theme_background = Some (js ''primary''),
                    theme_text = Some (js ''text_light''),
                    theme_accent = Some (js ''secondary''), useGlow = False\<rparr>),
      (js ''minimal'', \<lparr>theme_background = Some (js ''background_light''),
                       theme_text = Some (js ''primary''),
                       theme_accent = Some (js ''accent''), useGlow = False\<rparr>),
      (js ''gradient'', \<lparr>theme_background = Some (js ''gradient''),
                        theme_text = Some (js ''text_light''),
                        theme_accent = Some (js ''accent''), useGlow = True\<rparr>)]"

text \<open>
  \<^verbatim>\<open>THEMES\<close> is an object literal, so \<^verbatim>\<open>THEMES[themeName]\<close> is a property read that
  goes on to the prototype of the object when the object itself has no property of that
  name. The prototype is \<^verbatim>\<open>Object.prototype\<close>, whose properties are the functions and
  the accessor of the standard library listed here; each of them reads as a function or
  an object, which is truthy and has none of the properties of a theme.
\<close>

definition objectPrototypeKeys :: "jsstring list" where
  "objectPrototypeKeys = map js
     [''constructor'', ''hasOwnProperty'', ''isPrototypeOf'', ''propertyIsEnumerable'',
      ''toLocaleString'', ''toString'', ''valueOf'', ''__proto__'',
      ''__defineGetter__'', ''__defineSetter__'', ''__lookupGetter__'', ''__lookupSetter__'']"

definition inheritedValue :: ThemeDefinition where
  "inheritedValue =
     \<lparr>theme_background = None, theme_text = None, theme_accent = None, useGlow = False\<rparr>"

definition THEMES_get :: "jsstring \<Rightarrow> ThemeDefinition option" where
  "THEMES_get themeName =
     (case map_of THEMES themeName of
        Some theme \<Rightarrow> Some theme
      | None \<Rightarrow> if themeName \<in> set objectPrototypeKeys then Some inheritedValue else None)"

definition DEFAULT_COLORS :: "(jsstring \<times> jsstring) list" where
  "DEFAULT_COLORS =
     [(js ''primary'', js ''#3B82F6''),
      (js ''secondary'', js ''#1E293B''),
      (js ''accent'', js ''#10B981''),
      (js ''background_light'', js ''#F8FAFC''),
      (js ''background_dark'', js ''#0F172A''),
      (js ''text_light'', js ''#F8FAFC''),
      (js ''text_dark'', js ''#0F172A'')]"

section \<open>Brand configuration (src/config/brand-schema.ts)\<close>

record TypographyConfig =
  headline_font :: jsstring
  body_font :: jsstring

text \<open>The two sections of \<^verbatim>\<open>BrandConfig\<close> that the engines read, each read with
  \<^verbatim>\<open>?.\<close> and a default, hence optional here.\<close>

record BrandConfig =
  colors :: "(jsstring \<times> jsstring) list option"
  typography :: "TypographyConfig option"

section \<open>ThemeEngine (src/core/theme-engine.ts)\<close>

record ThemeEngine =
  brandConfig :: "BrandConfig option"

definition hexDigit :: "nat \<Rightarrow> nat option" where
  "hexDigit c =
     (if 48 \<le> c \<and> c \<le> 57 then Some (c - 48)
      else if 97 \<le> c \<and> c \<le> 102 then Some (c - 87)
      else if 65 \<le> c \<and> c \<le> 70 then Some (c - 55)
      else None)"

text \<open>\<^verbatim>\<open>/^#?([a-f\d]{2})([a-f\d]{2})([a-f\d]{2})$/i\<close> and \<^verbatim>\<open>parseInt(_, 16) / 255\<close>.\<close>

definition hexToRgb :: "jsstring \<Rightarrow> RGB" where
  "hexToRgb hex =
     (let digits = (case hex of [] \<Rightarrow> [] | c # cs \<Rightarrow> if c = 35 then cs else hex)
      in case map hexDigit digits of
           [Some r1, Some r2, Some g1, Some g2, Some b1, Some b2] \<Rightarrow>
             \<lparr>red = of_nat (16 * r1 + r2) / 255, green = of_nat (16 * g1 + g2) / 255,
              blue = of_nat (16 * b1 + b2) / 255\<rparr>
         | _ \<Rightarrow> \<lparr>red = 0, green = 0, blue = 0\<rparr>)"

text \<open>A property read \<^verbatim>\<open>colors[key] || ...\<close>: the key \<^verbatim>\<open>undefined\<close> is the property name
  \<^verbatim>\<open>"undefined"\<close>, and a missing or empty value is falsy. The keys that \<^verbatim>\<open>getColor\<close>
  is called with are the colour keys of the registered themes, \<^verbatim>\<open>primary\<close>,
  \<^verbatim>\<open>secondary\<close> and \<^verbatim>\<open>undefined\<close>, none of them a property of \<^verbatim>\<open>Object.prototype\<close>, so
  a palette is read as the list of its own entries.\<close>

definition propertyKey :: "jsstring option \<Rightarrow> jsstring" where
  "propertyKey key = (case key of Some k \<Rightarrow> k | None \<Rightarrow> js ''undefined'')"

definition truthyAt :: "(jsstring \<times> jsstring) list \<Rightarrow> jsstring \<Rightarrow> jsstring option" where
  "truthyAt obj k = (case map_of obj k of Some v \<Rightarrow> if v = [] then None else Some v | None \<Rightarrow> None)"

definition getColor :: "ThemeEngine \<Rightarrow> jsstring option \<Rightarrow> RGB" where
  "getColor eng key =
     (let palette = (case ThemeEngine.brandConfig eng of
                       None \<Rightarrow> DEFAULT_COLORS
                     | Some cfg \<Rightarrow> (case colors cfg of None \<Rightarrow> DEFAULT_COLORS | Some cs \<Rightarrow> cs));
          hex = (case truthyAt palette (propertyKey key) of
                   Some h \<Rightarrow> h
                 | None \<Rightarrow> (case truthyAt DEFAULT_COLORS (propertyKey key) of
                              Some h \<Rightarrow> h
                            | None \<Rightarrow> js ''#000000''))
      in hexToRgb hex)"

definition applyGradientBackground :: "ThemeEngine \<Rightarrow> Node \<Rightarrow> Node" where
  "applyGradientBackground eng frame =
     (let primaryColor = getColor eng (Some (js ''primary''));
          secondaryColor = getColor eng (Some (js ''secondary''))
      in mapAttrs (\<lambda>a. a\<lparr>fills :=
           [GRADIENT_LINEAR [ [0.7071, 0.7071, 0], [-0.7071, 0.7071, 0.5] ]
              [\<lparr>position = 0, color = primaryColor, alpha = 1\<rparr>,
               \<lparr>position = 1, color = secondaryColor, alpha = 1\<rparr>]]\<rparr>) frame)"

definition applyBackgroundColor :: "ThemeEngine \<Rightarrow> Node \<Rightarrow> ThemeDefinition \<Rightarrow> Node" where
  "applyBackgroundColor eng frame theme =
     (let colorKey = theme_background theme
      in if colorKey = Some (js ''gradient'') then applyGradientBackground eng frame
         else mapAttrs (\<lambda>a. a\<lparr>fills := [SOLID (getColor eng colorKey)]\<rparr>) frame)"

text \<open>\<^verbatim>\<open>applyTextColors\<close> paints every text node that \<^verbatim>\<open>findTextLayers\<close> collects, the
  call to action apart; the model paints them where they stand in the tree.\<close>

fun paintText :: "RGB \<Rightarrow> Node \<Rightarrow> Node" where
  "paintText textColor (Leaf a) =
     Leaf (if type a = TEXT \<and> name a \<noteq> LAYER_cta then a\<lparr>fills := [SOLID textColor]\<rparr> else a)"
| "paintText textColor (Parent a cs) =
     Parent (if type a = TEXT \<and> name a \<noteq> LAYER_cta then a\<lparr>fills := [SOLID textColor]\<rparr> else a)
       (map (paintText textColor) cs)"

definition applyTextColors :: "ThemeEngine \<Rightarrow> Node \<Rightarrow> ThemeDefinition \<Rightarrow> Node" where
  "applyTextColors eng frame theme = paintText (getColor eng (theme_text theme)) frame"

text \<open>\<^verbatim>\<open>findLayerByName\<close> followed by an assignment to the node found: the first node of
  that name in pre-order is replaced by its update. \<open>None\<close> when there is no such node.\<close>

fun updateLayerByName :: "jsstring \<Rightarrow> (Node \<Rightarrow> Node) \<Rightarrow> Node \<Rightarrow> Node option"
  and updateLayerIn :: "jsstring \<Rightarrow> (Node \<Rightarrow> Node) \<Rightarrow> Node list \<Rightarrow> Node list option" where
  "updateLayerByName nm f (Leaf a) = (if name a = nm then Some (f (Leaf a)) else None)"
| "updateLayerByName nm f (Parent a cs) =
     (if name a = nm then Some (f (Parent a cs))
      else map_option (Parent a) (updateLayerIn nm f cs))"
| "updateLayerIn nm f [] = None"
| "updateLayerIn nm f (child # cs) =
     (case updateLayerByName nm f child of
        Some child' \<Rightarrow> Some (child' # cs)
      | None \<Rightarrow> map_option ((#) child) (updateLayerIn nm f cs))"

definition applyAccentColors :: "ThemeEngine \<Rightarrow> Node \<Rightarrow> ThemeDefinition \<Rightarrow> Node" where
  "applyAccentColors eng frame theme =
     (let accentColor = getColor eng (theme_accent theme);
          paint = (\<lambda>ctaNode. if typeOf ctaNode = TEXT
                              then mapAttrs (\<lambda>a. a\<lparr>fills := [SOLID accentColor]\<rparr>) ctaNode
                              else ctaNode)
      in case updateLayerByName LAYER_cta paint frame of
           Some frame' \<Rightarrow> frame'
         | None \<Rightarrow> frame)"

definition applyGlowEffect :: "ThemeEngine \<Rightarrow> Node \<Rightarrow> ThemeDefinition \<Rightarrow> Node" where
  "applyGlowEffect eng frame theme =
     (let setGlow = (\<lambda>decorativeGroup.
            case decorativeGroup of
              Leaf a \<Rightarrow> decorativeGroup
            | Parent a cs \<Rightarrow>
                (case updateLayerByName LAYER_glow
                        (mapAttrs (\<lambda>g. g\<lparr>visible := useGlow theme\<rparr>)) decorativeGroup of
                   Some group' \<Rightarrow> group'
                 | None \<Rightarrow> decorativeGroup))
      in case updateLayerByName LAYER_decorative setGlow frame of
           Some frame' \<Rightarrow> frame'
         | None \<Rightarrow> frame)"

definition ThemeEngine_apply :: "ThemeEngine \<Rightarrow> Node \<Rightarrow> jsstring \<Rightarrow> Node" where
  "ThemeEngine_apply eng frame themeName =
     (case THEMES_get themeName of
        None \<Rightarrow> frame
      | Some theme \<Rightarrow>
          (let f1 = applyBackgroundColor eng frame theme;
               f2 = applyTextColors eng f1 theme;
               f3 = applyAccentColors eng f2 theme
           in applyGlowEffect eng f3 theme))"

section \<open>AuditEngine (src/core/audit-engine.ts)\<close>

text \<open>The \<^verbatim>\<open>name\<close> of a check is the field \<open>check_name\<close>; \<^verbatim>\<open>passed\<close> is a field of
  a check and of a result.\<close>

datatype Severity = Error | Warning | Info

record AuditCheck =
  check_name :: jsstring
  passed :: bool
  message :: jsstring
  severity :: Severity

record AuditResult =
  nodeId :: string
  nodeName :: jsstring
  passed :: bool
  score :: int
  checks :: "AuditCheck list"
  warnings :: "jsstring list"
  timestamp :: int

record AuditEngine =
  brandConfig :: "BrandConfig option"

definition SAFE_ZONE_margin :: rat where "SAFE_ZONE_margin = 0.05"
definition SAFE_ZONE_minPixels :: rat where "SAFE_ZONE_minPixels = 20"

definition checkColorCompliance :: "Node \<Rightarrow> AuditCheck" where
  "checkColorCompliance frame =
     \<lparr>check_name = js ''Color Compliance'', passed = True,
      message = js ''All colors match brand palette'', severity = Error\<rparr>"

text \<open>\<^verbatim>\<open>this.brandConfig?.typography?.headline_font || 'Inter'\<close>\<close>

definition fontOrInter :: "AuditEngine \<Rightarrow> (TypographyConfig \<Rightarrow> jsstring) \<Rightarrow> jsstring" where
  "fontOrInter eng field =
     (case AuditEngine.brandConfig eng of
        None \<Rightarrow> js ''Inter''
      | Some cfg \<Rightarrow>
          (case typography cfg of
             None \<Rightarrow> js ''Inter''
           | Some ty \<Rightarrow> if field ty = [] then js ''Inter'' else field ty))"

text \<open>The loop of \<^verbatim>\<open>checkTypography\<close>: the first text node whose font is not mixed and
  whose family is not allowed ends it.\<close>

fun firstBadFont :: "jsstring list \<Rightarrow> Node list \<Rightarrow> jsstring option" where
  "firstBadFont allowedFonts [] = None"
| "firstBadFont allowedFonts (t # ts) =
     (case fontName (attrs t) of
        Mixed \<Rightarrow> firstBadFont allowedFonts ts
      | Font fam sty \<Rightarrow>
          if fam \<notin> set allowedFonts then Some fam else firstBadFont allowedFonts ts)"

definition checkTypography :: "AuditEngine \<Rightarrow> Node \<Rightarrow> AuditCheck" where
  "checkTypography eng frame =
     (let textLayers = getTextLayers frame;
          allowedFonts = [fontOrInter eng headline_font, fontOrInter eng body_font]
      in case firstBadFont allowedFonts textLayers of
           Some fam \<Rightarrow>
             \<lparr>check_name = js ''Typography'', passed = False,
              message = js ''Non-brand font: '' @ fam, severity = Error\<rparr>
         | None \<Rightarrow>
             \<lparr>check_name = js ''Typography'', passed = True,
              message = js ''All text uses approved fonts'', severity = Error\<rparr>)"

definition checkLogoPlacement :: "Node \<Rightarrow> AuditCheck" where
  "checkLogoPlacement frame =
     (case findLayer frame LAYER_logo of
        None \<Rightarrow>
          \<lparr>check_name = js ''Logo Placement'', passed = False,
           message = js ''Logo layer not found'', severity = Warning\<rparr>
      | Some logoLayer \<Rightarrow>
          \<lparr>check_name = js ''Logo Placement'', passed = True,
           message = js ''Logo correctly placed'', severity = Warning\<rparr>)"

text \<open>\<^verbatim>\<open>validation.errors[0]\<close> is read when the validation failed, and then there is an
  error.\<close>

definition checkLayerStructure :: "Node \<Rightarrow> AuditCheck" where
  "checkLayerStructure frame =
     (let validation = validate frame
      in \<lparr>check_name = js ''Layer Structure'', passed = valid validation,
          message = (if valid validation then js ''Layer structure follows convention''
                     else (case errors validation of e # es \<Rightarrow> e | [] \<Rightarrow> [])),
          severity = (if length (errors validation) > 0 then Error else Warning)\<rparr>)"

definition checkSafeZones :: "Host \<Rightarrow> Node \<Rightarrow> AuditCheck" where
  "checkSafeZones host frame =
     (let minMargin = max (min (width (attrs frame)) (height (attrs frame)) * SAFE_ZONE_margin)
                          SAFE_ZONE_minPixels
      in \<lparr>check_name = js ''Safe Zones'', passed = True,
          message = js ''All text within '' @ numberToString host (of_int (round minMargin))
                    @ js ''px margin'',
          severity = Warning\<rparr>)"

definition checkContrastRatio :: "Node \<Rightarrow> AuditCheck" where
  "checkContrastRatio frame =
     \<lparr>check_name = js ''Contrast Ratio'', passed = True,
      message = js ''Contrast ratio: 4.5:1+ (WCAG AA compliant)'', severity = Error\<rparr>"

definition checkExportQuality :: "Host \<Rightarrow> Node \<Rightarrow> AuditCheck" where
  "checkExportQuality host frame =
     (let minWidth = 600; minHeight = 200
      in if width (attrs frame) < minWidth \<or> height (attrs frame) < minHeight
         then \<lparr>check_name = js ''Export Quality'', passed = False,
               message = js ''Resolution below minimum'', severity = Error\<rparr>
         else \<lparr>check_name = js ''Export Quality'', passed = True,
               message = js ''Resolution: '' @ numberToString host (width (attrs frame))
                         @ js ''x'' @ numberToString host (height (attrs frame)) @ js ''px'',
               severity = Warning\<rparr>)"

text \<open>The loop of \<^verbatim>\<open>audit\<close> that collects the warnings;
  \<^verbatim>\<open>check.message || check.name\<close> takes the name when the message is empty.\<close>

fun collectWarnings :: "AuditCheck list \<Rightarrow> jsstring list" where
  "collectWarnings [] = []"
| "collectWarnings (check # rest) =
     (if \<not> AuditCheck.passed check \<and> severity check = Warning
      then (if message check \<noteq> [] then message check else check_name check)
             # collectWarnings rest
      else collectWarnings rest)"

definition audit :: "Host \<Rightarrow> AuditEngine \<Rightarrow> Node \<Rightarrow> AuditResult" where
  "audit host eng frame =
     (let cs = [checkColorCompliance frame, checkTypography eng frame, checkLogoPlacement frame,
                checkLayerStructure frame, checkSafeZones host frame, checkContrastRatio frame,
                checkExportQuality host frame];
          passedChecks = length (filter AuditCheck.passed cs);
          sc = round ((of_nat passedChecks / of_nat (length cs)) * (100 :: rat));
          ws = collectWarnings cs;
          ok = (length (filter (\<lambda>c. severity c = Error \<and> \<not> AuditCheck.passed c) cs) = 0)
      in \<lparr>nodeId = node_id (attrs frame), nodeName = name (attrs frame), passed = ok,
          score = sc, checks = cs, warnings = ws, timestamp = now host\<rparr>)"

section \<open>IEEE doubles\<close>

text \<open>
  A JavaScript number is an IEEE 754 binary64 value, and each arithmetic operation returns
  the exact result rounded to the nearest such value, a tie going to the value with the
  even significand. A finite double is a real number here, and \<open>fl\<close> is the rounding: the
  unit in the last place of \<open>x\<close> is two to the power \<open>ulpExp x\<close>, which is 52 binary places
  below the leading bit of \<open>x\<close> and never below the spacing \<open>2^-1074\<close> of the subnormal
  numbers, and \<open>fl x\<close> is the nearest multiple of that unit. Overflow to infinity (beyond
  \<open>2^1024\<close>) and \<^verbatim>\<open>NaN\<close> are left out.
\<close>

text \<open>The number of binary digits of a positive integer.\<close>

function bitLength :: "int \<Rightarrow> int" where
  "bitLength n = (if n \<le> 0 then 0 else 1 + bitLength (n div 2))"
  by pat_completeness auto
termination
  by (relation "measure nat") auto

declare bitLength.simps [simp del]

definition pow2 :: "int \<Rightarrow> real" where
  "pow2 e = (if 0 \<le> e then 2 ^ nat e else 1 / 2 ^ nat (- e))"

text \<open>For positive \<open>x\<close>, the exponent \<open>e\<close> with \<open>2^e \<le> x < 2^(e+1)\<close>.\<close>

definition floorLog2 :: "real \<Rightarrow> int" where
  "floorLog2 x =
     (if 1 \<le> x then bitLength \<lfloor>x\<rfloor> - 1
      else - bitLength (\<lceil>1 / x\<rceil> - 1))"

text \<open>The nearest integer, a tie going to the even one.\<close>

definition roundEven :: "real \<Rightarrow> int" where
  "roundEven x =
     (let f = \<lfloor>x\<rfloor>; d = x - of_int f
      in if d < 1 / 2 then f else if 1 / 2 < d then f + 1 else if even f then f else f + 1)"

definition ulpExp :: "real \<Rightarrow> int" where
  "ulpExp x = max (floorLog2 \<bar>x\<bar> - 52) (- 1074)"

definition fl :: "real \<Rightarrow> real" where
  "fl x = (if x = 0 then 0 else of_int (roundEven (x / pow2 (ulpExp x))) * pow2 (ulpExp x))"

text \<open>\<^verbatim>\<open>Math.round\<close>: the nearest integer, a tie going up; this is \<open>round\<close> of the library,
  \<open>\<lfloor>x + 1/2\<rfloor>\<close>.\<close>

section \<open>FeedbackSystem (second half of src/core/audit-engine.ts)\<close>

datatype Outcome = approved | revised | rejected


datatype IssueSeverity = minor | major | critical












subsection \<open>The summary, as the specification words it\<close>



definition firstOccurrences :: "'a list \<Rightarrow> 'a list" where
  "firstOccurrences ks = rev (remdups (rev ks))"

definition topIssues :: "jsstring list \<Rightarrow> (jsstring \<times> nat) list" where
  "topIssues ks =
     take 5 (sort_key (\<lambda>entry. - int (snd entry))
               (map (\<lambda>k. (k, count_list ks k)) (firstOccurrences ks)))"





section \<open>Sample data\<close>

text \<open>Concrete inputs, for the theorems that evaluate the model.\<close>

definition launchBatch :: "TextInput list" where
  "launchBatch =
     [\<lparr>in_text = js ''Launch Day Is Here'', in_type = None\<rparr>,
      \<lparr>in_text = js ''Join thousands already using it.'', in_type = None\<rparr>,
      \<lparr>in_text = js ''Get Started Today'', in_type = None\<rparr>,
      \<lparr>in_text = js ''NEW'', in_type = None\<rparr>]"

definition twoHeadlines :: "TextInput list" where
  "twoHeadlines =
     [\<lparr>in_text = js ''Launch Day'', in_type = Some Headline\<rparr>,
      \<lparr>in_text = js ''Now Live'', in_type = Some Headline\<rparr>]"

definition headlineAndCta :: "TextInput list" where
  "headlineAndCta =
     [\<lparr>in_text = js ''Launch Day'', in_type = Some Headline\<rparr>,
      \<lparr>in_text = js ''Read more'', in_type = Some Cta\<rparr>]"

definition white :: RGB where "white = \<lparr>red = 1, green = 1, blue = 1\<rparr>"
definition black :: RGB where "black = \<lparr>red = 0, green = 0, blue = 0\<rparr>"

definition mkAttrs :: "string \<Rightarrow> string \<Rightarrow> NodeType \<Rightarrow> NodeAttrs" where
  "mkAttrs i nm ty =
     \<lparr>node_id = i, name = js nm, type = ty, fills = [SOLID white], visible = True,
      width = 1200, height = 675, fontName = Font (js ''Inter'') (js ''Regular'')\<rparr>"

text \<open>A frame as the generator builds it: a decorative group with a glow, and a content
  group with a headline and a call to action.\<close>

definition sampleFrame :: Node where
  "sampleFrame =
     Parent (mkAttrs ''1:1'' ''Asset Frame'' FRAME)
       [Parent (mkAttrs ''1:2'' ''decorative'' GROUP) [Leaf (mkAttrs ''1:3'' ''glow'' ELLIPSE)],
        Parent (mkAttrs ''1:4'' ''content'' GROUP)
          [Leaf (mkAttrs ''1:5'' ''headline'' TEXT), Leaf (mkAttrs ''1:6'' ''cta'' TEXT)]]"

text \<open>The same frame after \<^verbatim>\<open>apply\<close> with the theme name \<^verbatim>\<open>constructor\<close>.\<close>

definition sampleFrameBlack :: Node where
  "sampleFrameBlack =
     Parent ((mkAttrs ''1:1'' ''Asset Frame'' FRAME)\<lparr>fills := [SOLID black]\<rparr>)
       [Parent (mkAttrs ''1:2'' ''decorative'' GROUP)
          [Leaf ((mkAttrs ''1:3'' ''glow'' ELLIPSE)\<lparr>visible := False\<rparr>)],
        Parent (mkAttrs ''1:4'' ''content'' GROUP)
          [Leaf ((mkAttrs ''1:5'' ''headline'' TEXT)\<lparr>fills := [SOLID black]\<rparr>),
           Leaf ((mkAttrs ''1:6'' ''cta'' TEXT)\<lparr>fills := [SOLID black]\<rparr>)]]"

text \<open>A frame before naming: two frames that both become \<^verbatim>\<open>background\<close>, behind a
  picture.\<close>

definition heroNode :: Node where "heroNode = Leaf (mkAttrs ''2:2'' ''hero'' RECTANGLE)"
definition bgNodeA :: Node where "bgNodeA = Parent (mkAttrs ''2:3'' ''background'' FRAME) []"
definition bgNodeB :: Node where "bgNodeB = Parent (mkAttrs ''2:4'' ''background'' FRAME) [heroNode]"

definition twoBackgrounds :: Node where
  "twoBackgrounds = Parent (mkAttrs ''2:1'' ''Asset Frame'' FRAME) [heroNode, bgNodeA, bgNodeB]"

definition messyFrame :: Node where
  "messyFrame =
     Parent (mkAttrs ''3:1'' ''Asset Frame'' FRAME)
       [Leaf (mkAttrs ''3:2'' ''Main Heading'' TEXT),
        Parent (mkAttrs ''3:3'' ''Text Block'' GROUP) [Leaf (mkAttrs ''3:4'' ''Subheading'' TEXT)],
        Parent (mkAttrs ''3:5'' ''BG 1'' FRAME) [],
        Parent (mkAttrs ''3:6'' ''bg 2'' FRAME) []]"

definition plainThemeEngine :: ThemeEngine where
  "plainThemeEngine = \<lparr>ThemeEngine.brandConfig = None\<rparr>"

definition plainAuditEngine :: AuditEngine where
  "plainAuditEngine = \<lparr>AuditEngine.brandConfig = None\<rparr>"

text \<open>A host whose tables map a string code unit by code unit, as the Unicode tables do
  on the strings used below (on the letters from U+00C0 to U+00FE apart from the sharp s,
  and on the Cyrillic letters), whose clock stands at 1000000000000 ms, and whose local
  time is one hour ahead of UTC all year.\<close>

definition sampleUpperChar :: "nat \<Rightarrow> nat" where
  "sampleUpperChar c =
     (if (97 \<le> c \<and> c \<le> 122) \<or> (224 \<le> c \<and> c \<le> 254 \<and> c \<noteq> 247) \<or> (1072 \<le> c \<and> c \<le> 1103)
      then c - 32
      else if 1104 \<le> c \<and> c \<le> 1119 then c - 80 else c)"

definition sampleLowerChar :: "nat \<Rightarrow> nat" where
  "sampleLowerChar c =
     (if (65 \<le> c \<and> c \<le> 90) \<or> (192 \<le> c \<and> c \<le> 222 \<and> c \<noteq> 215) \<or> (1040 \<le> c \<and> c \<le> 1071)
      then c + 32
      else if 1024 \<le> c \<and> c \<le> 1039 then c + 80 else c)"

definition sampleHost :: Host where
  "sampleHost =
     \<lparr>upperCaseNonAscii = map sampleUpperChar, lowerCaseNonAscii = map sampleLowerChar,
      numberToString = (\<lambda>q. js ''n''), now = 1000000000000,
      LocalTZA = (\<lambda>t isUTC. 3600000)\<rparr>"


text \<open>The word \<^verbatim>\<open>novinka\<close> in Cyrillic small letters, and the letter \<^verbatim>\<open>e\<close> with an acute
  accent, small and capital.\<close>

definition novinka :: jsstring where
  "novinka = [1085, 1086, 1074, 1080, 1085, 1082, 1072]"

definition eAcute :: jsstring where "eAcute = [233]"
definition capitalEAcute :: jsstring where "capitalEAcute = [201]"

definition novinkaBatch :: "TextInput list" where
  "novinkaBatch =
     [\<lparr>in_text = novinka, in_type = None\<rparr>,
      \<lparr>in_text = js ''Launch Day'', in_type = Some Headline\<rparr>]"

definition smallFrame :: Node where
  "smallFrame =
     Parent ((mkAttrs ''4:1'' ''Asset Frame'' FRAME)\<lparr>width := 500, height := 150\<rparr>)
       [Parent (mkAttrs ''4:2'' ''content'' GROUP) [Leaf (mkAttrs ''4:3'' ''headline'' TEXT)]]"





section \<open>Properties of TextAnalyzer\<close>

lemma length_demoteRest: "length (demoteRest f rs) = length rs"
  by (induction rs arbitrary: f) auto

lemma length_promoteFirst: "length (promoteFirst rs) = length rs"
  by (induction rs) auto

lemma headlines_demoteRest_True:
  "filter (\<lambda>r. a_type r = Headline) (demoteRest True rs) = []"
  by (induction rs) auto

lemma headlines_demoteRest_False:
  "length (filter (\<lambda>r. a_type r = Headline) (demoteRest False rs)) \<le> 1"
  by (induction rs) (auto simp: headlines_demoteRest_True)

lemma headlines_promoteFirst:
  "filter (\<lambda>r. a_type r = Headline) rs = [] \<Longrightarrow>
   length (filter (\<lambda>r. a_type r = Headline) (promoteFirst rs)) \<le> 1"
  by (induction rs) (auto split: if_splits)

lemma headlines_adjust:
  "length (filter (\<lambda>r. a_type r = Headline) (adjust rs)) \<le> 1"
proof -
  let ?H = "\<lambda>xs. filter (\<lambda>r. a_type r = Headline) xs"
  consider (many) "length (?H rs) > 1" | (none) "length (?H rs) = 0" | (one) "length (?H rs) = 1"
    by linarith
  then show ?thesis
  proof cases
    case many
    then have "?H rs \<noteq> []" by auto
    with many show ?thesis using headlines_demoteRest_False [of rs]
      by (simp add: adjust_def Let_def)
  next
    case none
    then show ?thesis using headlines_promoteFirst [of rs] by (auto simp add: adjust_def Let_def)
  next
    case one
    then have "?H rs \<noteq> []" by auto
    with one show ?thesis by (simp add: adjust_def Let_def)
  qed
qed

lemma headlines_ensureHierarchy:
  "length (filter (\<lambda>r. a_type r = Headline) (ensureHierarchy rs)) \<le> 1"
proof -
  have "mset (filter (\<lambda>r. a_type r = Headline) (ensureHierarchy rs))
      = mset (filter (\<lambda>r. a_type r = Headline) (adjust rs))"
    by (simp add: ensureHierarchy_def)
  then have "length (filter (\<lambda>r. a_type r = Headline) (ensureHierarchy rs))
      = length (filter (\<lambda>r. a_type r = Headline) (adjust rs))"
    by (metis size_mset)
  then show ?thesis using headlines_adjust [of rs] by simp
qed

text \<open>Claim C1. For every non-empty batch of inputs that does not consist of inputs with an
  explicit role only, the output of \<open>analyze\<close> has at most one item of role headline.\<close>

theorem analyze_single_headline:
  assumes "inputs \<noteq> []" and "\<not> (\<forall>inp \<in> set inputs. in_type inp \<noteq> None)"
  shows "length (filter (\<lambda>r. a_type r = Headline) (analyze host inputs)) \<le> 1"
  unfolding analyze_def by (rule headlines_ensureHierarchy)

lemma demoteRest_nth_keep:
  "i < length rs \<Longrightarrow>
   (a_type (rs ! i) = Headline \<longrightarrow> \<not> f \<and> (\<forall>j<i. a_type (rs ! j) \<noteq> Headline)) \<Longrightarrow>
   demoteRest f rs ! i = rs ! i"
proof (induction rs arbitrary: i f)
  case Nil
  then show ?case by simp
next
  case (Cons r rs)
  show ?case
  proof (cases i)
    case 0
    with Cons.prems show ?thesis by auto
  next
    case (Suc k)
    with Cons.prems have k: "k < length rs" by simp
    have keep: "a_type (rs ! k) = Headline \<longrightarrow>
        \<not> (a_type r = Headline \<or> f) \<and> (\<forall>j<k. a_type (rs ! j) \<noteq> Headline)"
      using Cons.prems(2) Suc by fastforce
    show ?thesis
    proof (cases "a_type r = Headline")
      case True
      with keep have "a_type (rs ! k) = Headline \<longrightarrow> \<not> True \<and> (\<forall>j<k. a_type (rs ! j) \<noteq> Headline)"
        by simp
      from Cons.IH [OF k this] True Suc show ?thesis by simp
    next
      case False
      with keep have "a_type (rs ! k) = Headline \<longrightarrow> \<not> f \<and> (\<forall>j<k. a_type (rs ! j) \<noteq> Headline)"
        by simp
      from Cons.IH [OF k this] False Suc show ?thesis by simp
    qed
  qed
qed

lemma promoteFirst_nth_keep:
  "i < length rs \<Longrightarrow> \<not> isCandidate (rs ! i) \<or> (\<exists>j<i. isCandidate (rs ! j)) \<Longrightarrow>
   promoteFirst rs ! i = rs ! i"
proof (induction rs arbitrary: i)
  case Nil
  then show ?case by simp
next
  case (Cons r rs)
  show ?case
  proof (cases i)
    case 0
    with Cons.prems show ?thesis by auto
  next
    case (Suc k)
    show ?thesis
    proof (cases "isCandidate r")
      case True
      with Suc show ?thesis by simp
    next
      case False
      from Cons.prems Suc have k: "k < length rs" by simp
      have "\<not> isCandidate (rs ! k) \<or> (\<exists>j<k. isCandidate (rs ! j))"
      proof (cases "isCandidate (rs ! k)")
        case c: True
        with Cons.prems(2) Suc obtain j where j: "j < Suc k" "isCandidate ((r # rs) ! j)"
          by auto
        with False obtain j' where "j = Suc j'" by (cases j) auto
        with j show ?thesis by auto
      qed simp
      from Cons.IH [OF k this] False Suc show ?thesis by simp
    qed
  qed
qed

lemma classify_explicit:
  "in_type inp = Some ty \<Longrightarrow> a_type (classify host inp) = ty \<and> confidence (classify host inp) = 1 \<and> a_text (classify host inp) = in_text inp"
  by (simp add: classify_def)

lemma length_adjust: "length (adjust rs) = length rs"
  by (simp add: adjust_def Let_def length_demoteRest length_promoteFirst)

lemma adjust_nth_keep:
  assumes i: "i < length rs"
    and demote: "a_type (rs ! i) = Headline \<longrightarrow> (\<forall>j<i. a_type (rs ! j) \<noteq> Headline)"
    and promote: "a_type (rs ! i) \<noteq> Headline \<longrightarrow>
        (\<exists>j<length rs. a_type (rs ! j) = Headline) \<or> \<not> isCandidate (rs ! i) \<or> (\<exists>j<i. isCandidate (rs ! j))"
  shows "adjust rs ! i = rs ! i"
proof -
  let ?H = "filter (\<lambda>r. a_type r = Headline) rs"
  have d: "demoteRest False rs ! i = rs ! i"
    using demoteRest_nth_keep [OF i, of False] demote by simp
  show ?thesis
  proof (cases "?H = []")
    case True
    then have none: "\<forall>r \<in> set rs. a_type r \<noteq> Headline"
      by (simp add: filter_empty_conv)
    then have "\<not> (\<exists>j<length rs. a_type (rs ! j) = Headline)" by auto
    moreover from none i have "a_type (rs ! i) \<noteq> Headline" by auto
    ultimately have "\<not> isCandidate (rs ! i) \<or> (\<exists>j<i. isCandidate (rs ! j))"
      using promote by blast
    from promoteFirst_nth_keep [OF i this] True i show ?thesis
      by (auto simp add: adjust_def Let_def)
  next
    case False
    then show ?thesis using d by (simp add: adjust_def Let_def)
  qed
qed

text \<open>Claim C2, as amended. The item of an input with an explicit role has that role and
  confidence 1 after classification, and the reconciliation keeps both when (a) the role is
  headline and no earlier item of the batch is classified headline, or (b) the role is not
  headline and the batch has an item classified headline, or the item is no candidate for
  promotion (more than 15 words, or role cta or tag), or an earlier item is one. The item
  is then an element of the sorted output.\<close>

theorem explicit_role_kept:
  assumes i: "i < length inputs"
    and ex: "in_type (inputs ! i) = Some ty"
    and demote: "ty = Headline \<longrightarrow> (\<forall>j<i. a_type (classify host (inputs ! j)) \<noteq> Headline)"
    and promote: "ty \<noteq> Headline \<longrightarrow>
        (\<exists>j<length inputs. a_type (classify host (inputs ! j)) = Headline) \<or>
        \<not> isCandidate (classify host (inputs ! i)) \<or>
        (\<exists>j<i. isCandidate (classify host (inputs ! j)))"
  shows "length (adjust (map (classify host) inputs)) = length inputs \<and>
         a_text (adjust (map (classify host) inputs) ! i) = in_text (inputs ! i) \<and>
         a_type (adjust (map (classify host) inputs) ! i) = ty \<and>
         confidence (adjust (map (classify host) inputs) ! i) = 1 \<and>
         adjust (map (classify host) inputs) ! i \<in> set (analyze host inputs)"
proof -
  let ?rs = "map (classify host) inputs"
  have li: "i < length ?rs" using i by simp
  have c: "a_type (?rs ! i) = ty" "confidence (?rs ! i) = 1" "a_text (?rs ! i) = in_text (inputs ! i)"
    using classify_explicit [OF ex] i by simp_all
  have "adjust ?rs ! i = ?rs ! i"
  proof (rule adjust_nth_keep [OF li])
    show "a_type (?rs ! i) = Headline \<longrightarrow> (\<forall>j<i. a_type (?rs ! j) \<noteq> Headline)"
      using demote c(1) i by auto
    show "a_type (?rs ! i) \<noteq> Headline \<longrightarrow>
        (\<exists>j<length ?rs. a_type (?rs ! j) = Headline) \<or> \<not> isCandidate (?rs ! i) \<or>
        (\<exists>j<i. isCandidate (?rs ! j))"
      using promote c(1) i by auto
  qed
  moreover have "adjust ?rs ! i \<in> set (analyze host inputs)"
    using li by (simp add: analyze_def ensureHierarchy_def length_adjust)
  ultimately show ?thesis using c by (simp add: length_adjust)
qed

lemmas string_defs = js_def trim_def isSpace_def isDigit_def isWordChar_def lowerChar_def
  upperChar_def isAscii_def toLowerCase_def toUpperCase_def
lemmas analyzer_defs = CTA_WORDS_def matchesWordI_def matchesHashtag_def matchesDate_def
  TAG_PATTERNS_def countWords_def isArrow_def hasActionWord_def hasPunctuation_def isTag_def
  detectType_def classify_def isCandidate_def adjust_def ensureHierarchy_def analyze_def

text \<open>Claim C2 fails as stated: of two inputs with the explicit role headline, the second comes
  out as subhead with confidence 0.8.\<close>

theorem explicit_headline_demoted:
  "analyze sampleHost twoHeadlines =
     [\<lparr>a_text = js ''Launch Day'', a_type = Headline, wordCount = 2, charCount = 10,
       hasAction = False, isPunctated = False, confidence = 1\<rparr>,
      \<lparr>a_text = js ''Now Live'', a_type = Subhead, wordCount = 2, charCount = 8,
       hasAction = False, isPunctated = False, confidence = 0.8\<rparr>]"
  by (simp add: twoHeadlines_def string_defs analyzer_defs)

text \<open>Claim C3 fails as stated: no item of the output has role body.\<close>

theorem launchBatch_no_body:
  "map a_type (analyze sampleHost launchBatch) = [Tag, Headline, Cta, Cta]"
  by (simp add: launchBatch_def string_defs analyzer_defs)

text \<open>Claim C3, as amended. The four texts are classified headline, cta, cta and tag
  respectively; the output lists them sorted by role: the tag, the headline, the two
  calls to action.\<close>

theorem launchBatch_roles:
  "analyze host launchBatch =
     [\<lparr>a_text = js ''NEW'', a_type = Tag, wordCount = 1, charCount = 3,
       hasAction = False, isPunctated = False, confidence = 0.9\<rparr>,
      \<lparr>a_text = js ''Launch Day Is Here'', a_type = Headline, wordCount = 4, charCount = 18,
       hasAction = False, isPunctated = False, confidence = 0.8\<rparr>,
      \<lparr>a_text = js ''Join thousands already using it.'', a_type = Cta, wordCount = 5,
       charCount = 32, hasAction = True, isPunctated = True, confidence = 0.85\<rparr>,
      \<lparr>a_text = js ''Get Started Today'', a_type = Cta, wordCount = 3, charCount = 17,
       hasAction = True, isPunctated = False, confidence = 0.85\<rparr>]"
  by (simp add: launchBatch_def string_defs analyzer_defs)

text \<open>Claim C4 fails as stated: a text of four upper-case words in seven characters is entirely
  upper-case and at most 15 characters long, and is classified headline, not tag.\<close>

theorem uppercase_four_words_not_tag:
  "trim (js ''A B C D'') = toUpperCase sampleHost (trim (js ''A B C D'')) \<and>
   length (trim (js ''A B C D'')) \<le> 15 \<and>
   a_type (detectType sampleHost (js ''A B C D'')) = Headline"
  by (simp add: string_defs analyzer_defs)

text \<open>Claim C1, at a batch of six inputs of which four have no explicit role.\<close>

theorem analyze_single_headline_witness:
  "twoHeadlines @ launchBatch \<noteq> [] \<and>
   \<not> (\<forall>inp \<in> set (twoHeadlines @ launchBatch). in_type inp \<noteq> None) \<and>
   length (filter (\<lambda>r. a_type r = Headline) (analyze sampleHost (twoHeadlines @ launchBatch))) \<le> 1"
proof -
  have 1: "twoHeadlines @ launchBatch \<noteq> []" by (simp add: twoHeadlines_def)
  have 2: "\<not> (\<forall>inp \<in> set (twoHeadlines @ launchBatch). in_type inp \<noteq> None)"
    by (simp add: launchBatch_def)
  from analyze_single_headline [OF 1 2, of sampleHost] 1 2 show ?thesis by simp
qed

text \<open>Claim C2, as amended, at the second input of a batch of an explicit headline and an
  explicit cta.\<close>

theorem explicit_role_kept_witness:
  "1 < length headlineAndCta \<and> in_type (headlineAndCta ! 1) = Some Cta \<and>
   a_type (adjust (map (classify sampleHost) headlineAndCta) ! 1) = Cta \<and>
   confidence (adjust (map (classify sampleHost) headlineAndCta) ! 1) = 1 \<and>
   a_text (adjust (map (classify sampleHost) headlineAndCta) ! 1) = js ''Read more'' \<and>
   adjust (map (classify sampleHost) headlineAndCta) ! 1 \<in> set (analyze sampleHost headlineAndCta)"
proof -
  have 1: "1 < length headlineAndCta" by (simp add: headlineAndCta_def)
  have 2: "in_type (headlineAndCta ! 1) = Some Cta" by (simp add: headlineAndCta_def)
  have 3: "Cta = Headline \<longrightarrow> (\<forall>j<1. a_type (classify sampleHost (headlineAndCta ! j)) \<noteq> Headline)"
    by simp
  have "a_type (classify sampleHost (headlineAndCta ! 0)) = Headline"
    by (simp add: headlineAndCta_def classify_def)
  then have "\<exists>j<length headlineAndCta. a_type (classify sampleHost (headlineAndCta ! j)) = Headline"
    using 1 by (intro exI [of _ 0]) auto
  then have 4: "Cta \<noteq> Headline \<longrightarrow>
        (\<exists>j<length headlineAndCta. a_type (classify sampleHost (headlineAndCta ! j)) = Headline) \<or>
        \<not> isCandidate (classify sampleHost (headlineAndCta ! 1)) \<or>
        (\<exists>j<1. isCandidate (classify sampleHost (headlineAndCta ! j)))"
    by simp
  from explicit_role_kept [OF 1 2 3 4] 1 2 show ?thesis by (simp add: headlineAndCta_def)
qed

text \<open>A Cyrillic word without an explicit role is classified headline, as its upper-casing
  differs from it, and the explicit headline after it comes out as subhead.\<close>

lemma novinka_demotes_explicit_headline:
  "analyze sampleHost novinkaBatch =
     [\<lparr>a_text = novinka, a_type = Headline, wordCount = 1, charCount = 7,
       hasAction = False, isPunctated = False, confidence = 0.8\<rparr>,
      \<lparr>a_text = js ''Launch Day'', a_type = Subhead, wordCount = 2, charCount = 10,
       hasAction = False, isPunctated = False, confidence = 0.8\<rparr>]"
  by (simp add: novinkaBatch_def novinka_def sampleHost_def sampleUpperChar_def
      sampleLowerChar_def string_defs analyzer_defs)

lemma dropWhile_rev_dropWhile:
  "dropWhile P (rev (dropWhile P (rev (dropWhile P s)))) = rev (dropWhile P (rev (dropWhile P s)))"
proof (cases "dropWhile P (rev (dropWhile P s)) = []")
  case True
  then show ?thesis by (simp del: dropWhile_eq_Nil_conv)
next
  case False
  define A where "A = dropWhile P s"
  define B where "B = dropWhile P (rev A)"
  from False have Bne: "B \<noteq> []" by (simp add: A_def B_def)
  then have Ane: "A \<noteq> []" by (auto simp: B_def)
  have "rev A = takeWhile P (rev A) @ B" by (simp add: B_def)
  then have "A = rev B @ rev (takeWhile P (rev A))"
    by (metis rev_append rev_rev_ident)
  with Bne have "hd (rev B) = hd A"
    by (metis hd_append2 rev_is_Nil_conv)
  moreover have "\<not> P (hd A)" using Ane unfolding A_def by (rule hd_dropWhile)
  ultimately have "dropWhile P (rev B) = rev B"
    using Bne by (simp add: dropWhile_eq_self_iff)
  then show ?thesis by (simp add: A_def B_def)
qed

lemma trim_trim: "trim (trim t) = trim t"
  by (simp add: trim_def dropWhile_rev_dropWhile)

lemma countWords_trim: "countWords (trim t) = countWords t"
  by (simp add: countWords_def trim_trim)

lemma upperChar_eq_iff: "upperChar c = upperChar d \<longleftrightarrow> lowerChar c = lowerChar d"
  by (simp add: upperChar_def lowerChar_def) arith

lemma map_upperChar_eq_iff:
  "map upperChar s = map upperChar w \<longleftrightarrow> map lowerChar s = map lowerChar w"
proof (induction s arbitrary: w)
  case Nil
  then show ?case by simp
next
  case (Cons c s)
  then show ?case by (cases w) (simp_all add: upperChar_eq_iff)
qed

lemma matchesWordI_lower:
  assumes "\<forall>w \<in> set ws. map lowerChar (js w) = js w"
  shows "matchesWordI ws s \<longleftrightarrow> map lowerChar s \<in> set (map js ws)"
proof -
  have "matchesWordI ws s \<longleftrightarrow> (\<exists>w \<in> set ws. map upperChar s = map upperChar (js w))"
    by (auto simp add: matchesWordI_def)
  also have "\<dots> \<longleftrightarrow> (\<exists>w \<in> set ws. map lowerChar s = map lowerChar (js w))"
    by (simp add: map_upperChar_eq_iff)
  also have "\<dots> \<longleftrightarrow> (\<exists>w \<in> set ws. map lowerChar s = js w)"
    using assms by simp
  also have "\<dots> \<longleftrightarrow> map lowerChar s \<in> set (map js ws)"
    by auto
  finally show ?thesis .
qed

lemma matchesHashtag_iff: "matchesHashtag s \<longleftrightarrow> isHashtag s"
proof (cases s)
  case Nil
  then show ?thesis by (simp add: matchesHashtag_def isHashtag_def)
next
  case (Cons c cs)
  then show ?thesis by (cases cs) (auto simp add: matchesHashtag_def isHashtag_def)
qed

lemma not_isDigit_slash: "\<not> isDigit 47"
  by (simp add: isDigit_def)

lemma length_1_2_cases:
  assumes "1 \<le> length xs" and "length xs \<le> 2"
  obtains x where "xs = [x]" | x y where "xs = [x, y]"
proof (cases xs)
  case Nil
  with assms show ?thesis by simp
next
  case xs: (Cons x ys)
  show ?thesis
  proof (cases ys)
    case Nil
    with xs that(1) show ?thesis by simp
  next
    case ys: (Cons y zs)
    with xs assms have "zs = []" by simp
    with xs ys that(2) show ?thesis by simp
  qed
qed

lemma matchesDate_iff: "matchesDate s \<longleftrightarrow> isDateLike s"
proof
  assume m: "matchesDate s"
  define a where "a = takeWhile isDigit s"
  define r where "r = dropWhile isDigit s"
  from m obtain b where r: "r = 47 # b" and la: "1 \<le> length a" "length a \<le> 2"
    and lb: "1 \<le> length b" "length b \<le> 2" and db: "list_all isDigit b"
    by (auto simp add: matchesDate_def Let_def a_def r_def split: list.splits)
  have da: "list_all isDigit a"
    unfolding a_def list_all_iff by (auto dest: set_takeWhileD)
  have "s = a @ r"
    unfolding a_def r_def by simp
  with r have s: "s = a @ 47 # b"
    by simp
  from la show "isDateLike s"
  proof (cases a rule: length_1_2_cases)
    case (1 x)
    from lb show ?thesis
    proof (cases b rule: length_1_2_cases)
      case (1 u)
      with \<open>a = [x]\<close> s da db show ?thesis by (simp add: isDateLike_def)
    next
      case (2 u v)
      with \<open>a = [x]\<close> s da db show ?thesis by (simp add: isDateLike_def)
    qed
  next
    case (2 x y)
    from lb show ?thesis
    proof (cases b rule: length_1_2_cases)
      case (1 u)
      with \<open>a = [x, y]\<close> s da db show ?thesis by (simp add: isDateLike_def)
    next
      case (2 u v)
      with \<open>a = [x, y]\<close> s da db show ?thesis by (simp add: isDateLike_def)
    qed
  qed
next
  assume d: "isDateLike s"
  then consider
      (d1) a b where "s = [a, 47, b]" "isDigit a" "isDigit b"
    | (d2) a b c where "s = [a, 47, b, c]" "isDigit a" "isDigit b" "isDigit c"
    | (d3) a b c where "s = [a, b, 47, c]" "isDigit a" "isDigit b" "isDigit c"
    | (d4) a b c e where "s = [a, b, 47, c, e]" "isDigit a" "isDigit b" "isDigit c" "isDigit e"
    by (auto simp add: isDateLike_def split: list.splits)
  then show "matchesDate s"
  proof cases
    case d1
    then show ?thesis by (simp add: matchesDate_def not_isDigit_slash)
  next
    case d2
    then show ?thesis by (simp add: matchesDate_def not_isDigit_slash)
  next
    case d3
    then show ?thesis by (simp add: matchesDate_def not_isDigit_slash)
  next
    case d4
    then show ?thesis by (simp add: matchesDate_def not_isDigit_slash)
  qed
qed

lemma labelWords_lower: "\<forall>w \<in> set labelWords. map lowerChar (js w) = js w"
  by (simp add: labelWords_def js_def lowerChar_def)

lemma patterns_shortLabel: "list_ex (\<lambda>pattern. pattern s) TAG_PATTERNS \<longleftrightarrow> isShortLabel s"
proof -
  let ?status = "[''new'', ''hot'', ''sale'', ''trending'', ''featured'', ''exclusive'', ''limited'']"
  let ?news = "[''update'', ''news'', ''blog'', ''post'', ''article'']"
  let ?howto = "[''tip'', ''guide'', ''howto'', ''how-to'', ''tutorial'']"
  have words: "labelWords = ?status @ ?news @ ?howto"
    by (simp add: labelWords_def)
  have low: "\<forall>w \<in> set ?status. map lowerChar (js w) = js w"
    "\<forall>w \<in> set ?news. map lowerChar (js w) = js w"
    "\<forall>w \<in> set ?howto. map lowerChar (js w) = js w"
    using labelWords_lower unfolding words by simp_all
  have "list_ex (\<lambda>pattern. pattern s) TAG_PATTERNS \<longleftrightarrow>
      matchesWordI ?status s \<or> matchesWordI ?news s \<or> matchesWordI ?howto s \<or>
      matchesHashtag s \<or> matchesDate s"
    by (simp add: TAG_PATTERNS_def)
  also have "\<dots> \<longleftrightarrow>
      map lowerChar s \<in> set (map js ?status) \<or> map lowerChar s \<in> set (map js ?news) \<or>
      map lowerChar s \<in> set (map js ?howto) \<or> isHashtag s \<or> isDateLike s"
    by (simp only: matchesWordI_lower [OF low(1)] matchesWordI_lower [OF low(2)]
        matchesWordI_lower [OF low(3)] matchesHashtag_iff matchesDate_iff)
  also have "\<dots> \<longleftrightarrow> isShortLabel s"
    unfolding isShortLabel_def words by auto
  finally show ?thesis .
qed

lemma upperCased_ascii: "s = map upperChar s \<longleftrightarrow> \<not> list_ex (\<lambda>c. 97 \<le> c \<and> c \<le> 122) s"
  by (induction s) (auto simp add: upperChar_def)

lemma toUpperCase_fixed: "s = toUpperCase host s \<longleftrightarrow> isUpperCased host s"
  by (auto simp add: toUpperCase_def isUpperCased_def upperCased_ascii)

text \<open>Claim C4, as amended. The classifier assigns role tag exactly when the text has at most
  three words and its trimmed form is a short label (a status, news or how-to word in any
  case of its letters, a hashtag token, or a date-like \<^verbatim>\<open>d/d\<close> to \<^verbatim>\<open>dd/dd\<close>) or is at most
  15 characters long and entirely upper-case: the bound on the word count guards both
  branches.\<close>

theorem detectType_tag_iff:
  "a_type (detectType host t) = Tag \<longleftrightarrow>
     countWords t \<le> 3 \<and>
     (isShortLabel (trim t) \<or> (length (trim t) \<le> 15 \<and> isUpperCased host (trim t)))"
  by (auto simp add: detectType_def isTag_def Let_def countWords_trim patterns_shortLabel
      toUpperCase_fixed)

lemma trim_spaces: "\<forall>c \<in> set t. isSpace c \<Longrightarrow> trim t = []"
proof -
  assume "\<forall>c \<in> set t. isSpace c"
  then have "dropWhile isSpace t = []" by simp
  then show ?thesis by (simp add: trim_def del: dropWhile_eq_Nil_conv)
qed

lemma no_pattern_empty: "\<not> list_ex (\<lambda>pattern. pattern []) TAG_PATTERNS"
  by (simp add: TAG_PATTERNS_def matchesWordI_def matchesHashtag_def matchesDate_def js_def)

text \<open>Claim C10. A text that is empty or consists of white space only is classified tag, with
  confidence 0.9 and word count 0.\<close>

theorem blank_text_is_tag:
  assumes "\<forall>c \<in> set t. isSpace c"
  shows "a_type (detectType host t) = Tag \<and> confidence (detectType host t) = 0.9 \<and>
         wordCount (detectType host t) = 0"
proof -
  have tr: "trim t = []" using assms by (rule trim_spaces)
  have wc: "countWords t = 0" by (simp add: countWords_def tr)
  have wc0: "countWords [] = 0" by (simp add: countWords_def trim_def)
  have "isTag host t"
    by (simp add: isTag_def tr wc0 no_pattern_empty toUpperCase_def isAscii_def)
  then show ?thesis by (simp add: detectType_def wc)
qed

text \<open>Claim C10, at a text of two spaces.\<close>

theorem blank_text_is_tag_witness:
  "list_all isSpace (js ''  '') \<and> a_type (detectType sampleHost (js ''  '')) = Tag \<and>
   confidence (detectType sampleHost (js ''  '')) = 0.9 \<and> wordCount (detectType sampleHost (js ''  '')) = 0"
proof -
  have sp: "list_all isSpace (js ''  '')" by (simp add: js_def isSpace_def)
  then have "\<forall>c \<in> set (js ''  ''). isSpace c" by (simp add: list_all_iff)
  from blank_text_is_tag [OF this, of sampleHost] sp show ?thesis by simp
qed

text \<open>Claim C4, as amended, at eight texts: a status word in small letters and a hashtag,
  which are short labels and not upper-case; three upper-case letters, which are no short
  label; four upper-case words; three upper-case words of 22 characters; a capitalised
  word, which is neither; and, with the case tables of the sample host, the small and the
  capital letter e with acute accent.\<close>

theorem detectType_tag_iff_witness:
  "a_type (detectType sampleHost (js ''new'')) = Tag \<and>
   isShortLabel (trim (js ''new'')) \<and> \<not> isUpperCased sampleHost (trim (js ''new'')) \<and>
   a_type (detectType sampleHost (js ''#launch'')) = Tag \<and>
   isHashtag (trim (js ''#launch'')) \<and> \<not> isUpperCased sampleHost (trim (js ''#launch'')) \<and>
   a_type (detectType sampleHost (js ''ABC'')) = Tag \<and>
   \<not> isShortLabel (trim (js ''ABC'')) \<and> isUpperCased sampleHost (trim (js ''ABC'')) \<and>
   a_type (detectType sampleHost (js ''A B C D'')) \<noteq> Tag \<and>
   countWords (js ''A B C D'') = 4 \<and> isUpperCased sampleHost (trim (js ''A B C D'')) \<and>
   a_type (detectType sampleHost (js ''SUMMER COLLECTION 2024'')) \<noteq> Tag \<and>
   countWords (js ''SUMMER COLLECTION 2024'') = 3 \<and>
   length (trim (js ''SUMMER COLLECTION 2024'')) = 22 \<and>
   isUpperCased sampleHost (trim (js ''SUMMER COLLECTION 2024'')) \<and>
   a_type (detectType sampleHost (js ''Hello'')) \<noteq> Tag \<and> countWords (js ''Hello'') = 1 \<and>
   a_type (detectType sampleHost eAcute) \<noteq> Tag \<and> countWords eAcute = 1 \<and>
   a_type (detectType sampleHost capitalEAcute) = Tag \<and>
   \<not> isShortLabel (trim capitalEAcute)"
proof -
  note tag_defs = string_defs countWords_def isShortLabel_def labelWords_def isHashtag_def
    isDateLike_def isUpperCased_def sampleHost_def sampleUpperChar_def eAcute_def
    capitalEAcute_def
  have new: "countWords (js ''new'') = 1" "isShortLabel (trim (js ''new''))"
    "\<not> isUpperCased sampleHost (trim (js ''new''))"
    by (simp_all add: tag_defs)
  have hash: "countWords (js ''#launch'') = 1" "isHashtag (trim (js ''#launch''))"
    "isShortLabel (trim (js ''#launch''))" "\<not> isUpperCased sampleHost (trim (js ''#launch''))"
    by (simp_all add: tag_defs)
  have abc: "countWords (js ''ABC'') = 1" "\<not> isShortLabel (trim (js ''ABC''))"
    "isUpperCased sampleHost (trim (js ''ABC''))" "length (trim (js ''ABC'')) = 3"
    by (simp_all add: tag_defs)
  have four: "countWords (js ''A B C D'') = 4" "isUpperCased sampleHost (trim (js ''A B C D''))"
    by (simp_all add: tag_defs)
  have long: "countWords (js ''SUMMER COLLECTION 2024'') = 3"
    "\<not> isShortLabel (trim (js ''SUMMER COLLECTION 2024''))"
    "length (trim (js ''SUMMER COLLECTION 2024'')) = 22"
    "isUpperCased sampleHost (trim (js ''SUMMER COLLECTION 2024''))"
    by (simp_all add: tag_defs)
  have hello: "countWords (js ''Hello'') = 1" "\<not> isShortLabel (trim (js ''Hello''))"
    "\<not> isUpperCased sampleHost (trim (js ''Hello''))"
    by (simp_all add: tag_defs)
  have small: "countWords eAcute = 1" "\<not> isShortLabel (trim eAcute)"
    "\<not> isUpperCased sampleHost (trim eAcute)"
    by (simp_all add: tag_defs)
  have capital: "countWords capitalEAcute = 1" "\<not> isShortLabel (trim capitalEAcute)"
    "isUpperCased sampleHost (trim capitalEAcute)" "length (trim capitalEAcute) = 1"
    by (simp_all add: tag_defs)
  from detectType_tag_iff [of sampleHost "js ''new''"]
    detectType_tag_iff [of sampleHost "js ''#launch''"]
    detectType_tag_iff [of sampleHost "js ''ABC''"]
    detectType_tag_iff [of sampleHost "js ''A B C D''"]
    detectType_tag_iff [of sampleHost "js ''SUMMER COLLECTION 2024''"]
    detectType_tag_iff [of sampleHost "js ''Hello''"]
    detectType_tag_iff [of sampleHost eAcute]
    detectType_tag_iff [of sampleHost capitalEAcute]
    new hash abc four long hello small capital
  show ?thesis by simp
qed

section \<open>Properties of LayerManager\<close>

lemma fold_insertChild0:
  "distinct xs \<Longrightarrow> distinct ys \<Longrightarrow>
   fold insertChild0 (rev ys) xs = ys @ filter (\<lambda>x. x \<notin> set ys) xs"
proof (induction ys)
  case Nil
  then show ?case by simp
next
  case (Cons y ys)
  then have y: "y \<notin> set ys" and dys: "distinct ys" by simp_all
  have d: "distinct (filter (\<lambda>x. x \<notin> set ys) xs)" using Cons.prems(1) by simp
  have "fold insertChild0 (rev (y # ys)) xs = insertChild0 y (fold insertChild0 (rev ys) xs)"
    by simp
  also have "\<dots> = y # remove1 y (ys @ filter (\<lambda>x. x \<notin> set ys) xs)"
    by (simp only: Cons.IH [OF Cons.prems(1) dys] insertChild0_def)
  also have "remove1 y (ys @ filter (\<lambda>x. x \<notin> set ys) xs)
      = ys @ remove1 y (filter (\<lambda>x. x \<notin> set ys) xs)"
    using y by (simp add: remove1_append)
  also have "remove1 y (filter (\<lambda>x. x \<notin> set ys) xs) = filter (\<lambda>x. x \<notin> set (y # ys)) xs"
    using d by (auto simp add: distinct_remove1_removeAll removeAll_filter_not_eq intro: filter_cong)
  finally show ?case by simp
qed

lemma find_dropFirst_other:
  "(\<And>c. Q c \<Longrightarrow> \<not> Q' c) \<Longrightarrow> find Q (dropFirst Q' xs) = find Q xs"
  by (induction xs) auto

lemma filter_not_found:
  "distinct xs \<Longrightarrow>
   filter (\<lambda>c. c \<notin> set (case find Q xs of Some c \<Rightarrow> [c] | None \<Rightarrow> [])) xs = dropFirst Q xs"
proof (induction xs)
  case Nil
  then show ?case by simp
next
  case (Cons x xs)
  show ?case
  proof (cases "Q x")
    case True
    have "filter (\<lambda>c. c \<noteq> x) xs = xs" using Cons.prems by (auto intro: filter_True)
    with True show ?thesis by simp
  next
    case False
    have "x \<notin> set (case find Q xs of Some c \<Rightarrow> [c] | None \<Rightarrow> [])"
    proof (cases "find Q xs")
      case None
      then show ?thesis by simp
    next
      case (Some c)
      then have "Q c" by (auto simp: find_Some_iff)
      with False Some show ?thesis by auto
    qed
    with False Cons show ?thesis by simp
  qed
qed

lemma set_dropFirst: "set (dropFirst Q xs) \<subseteq> set xs"
  by (induction xs) auto

lemma distinct_dropFirst: "distinct xs \<Longrightarrow> distinct (dropFirst Q xs)"
  using set_dropFirst [of Q] by (induction xs) auto

lemma distinct_picks:
  fixes P :: "'n \<Rightarrow> 'a \<Rightarrow> bool"
  assumes excl: "\<And>n m c. P n c \<Longrightarrow> P m c \<Longrightarrow> n = m"
  shows "distinct ns \<Longrightarrow>
    distinct (concat (map (\<lambda>n. case find (P n) T of Some c \<Rightarrow> [c] | None \<Rightarrow> []) ns))"
proof (induction ns)
  case Nil
  then show ?case by simp
next
  case (Cons n ns)
  have "c \<notin> set (concat (map (\<lambda>n. case find (P n) T of Some c \<Rightarrow> [c] | None \<Rightarrow> []) ns))"
    if "find (P n) T = Some c" for c
  proof
    assume "c \<in> set (concat (map (\<lambda>n. case find (P n) T of Some c \<Rightarrow> [c] | None \<Rightarrow> []) ns))"
    then obtain m where m: "m \<in> set ns" "find (P m) T = Some c"
      by (auto split: option.splits)
    from that have "P n c" by (auto simp: find_Some_iff)
    moreover from m have "P m c" by (auto simp: find_Some_iff)
    ultimately have "n = m" by (rule excl)
    with m(1) Cons.prems show False by simp
  qed
  with Cons show ?case by (auto split: option.splits)
qed

lemma others_fold_dropFirst:
  fixes P :: "'n \<Rightarrow> 'a \<Rightarrow> bool"
  assumes excl: "\<And>n m c. P n c \<Longrightarrow> P m c \<Longrightarrow> n = m"
  shows "distinct ns \<Longrightarrow> distinct T' \<Longrightarrow> \<forall>n \<in> set ns. find (P n) T' = find (P n) T \<Longrightarrow>
    filter (\<lambda>c. c \<notin> set (concat (map (\<lambda>n. case find (P n) T of Some c \<Rightarrow> [c] | None \<Rightarrow> []) ns))) T'
      = fold (\<lambda>n. dropFirst (P n)) ns T'"
proof (induction ns arbitrary: T')
  case Nil
  then show ?case by simp
next
  case (Cons n ns)
  let ?o = "case find (P n) T of Some c \<Rightarrow> [c] | None \<Rightarrow> []"
  let ?picks = "concat (map (\<lambda>n. case find (P n) T of Some c \<Rightarrow> [c] | None \<Rightarrow> []) ns)"
  let ?T'' = "dropFirst (P n) T'"
  have same: "find (P n) T = find (P n) T'" using Cons.prems(3) by simp
  have "filter (\<lambda>c. c \<notin> set (?o @ ?picks)) T'
      = filter (\<lambda>c. c \<notin> set ?picks) (filter (\<lambda>c. c \<notin> set ?o) T')"
    by (auto intro: filter_cong)
  also have "filter (\<lambda>c. c \<notin> set ?o) T' = ?T''"
    unfolding same using Cons.prems(2) by (rule filter_not_found)
  also have "filter (\<lambda>c. c \<notin> set ?picks) ?T'' = fold (\<lambda>n. dropFirst (P n)) ns ?T''"
  proof (rule Cons.IH)
    show "distinct ns" using Cons.prems(1) by simp
    show "distinct ?T''" using Cons.prems(2) by (rule distinct_dropFirst)
    show "\<forall>m \<in> set ns. find (P m) ?T'' = find (P m) T"
    proof
      fix m assume m: "m \<in> set ns"
      with Cons.prems(1) have "m \<noteq> n" by auto
      then have "\<And>c. P m c \<Longrightarrow> \<not> P n c" using excl by blast
      then have "find (P m) ?T'' = find (P m) T'" by (rule find_dropFirst_other)
      with m Cons.prems(3) show "find (P m) ?T'' = find (P m) T" by simp
    qed
  qed
  finally show ?case by simp
qed

lemma map_dropFirst: "map f (dropFirst (\<lambda>c. Q (f c)) xs) = dropFirst Q (map f xs)"
  by (induction xs) auto

lemma map_fold_dropFirst:
  "map f (fold (\<lambda>n. dropFirst (\<lambda>c. Q n (f c))) ns xs) = fold (\<lambda>n. dropFirst (Q n)) ns (map f xs)"
  by (induction ns arbitrary: xs) (simp_all add: map_dropFirst)

lemma map_picks:
  "map f (concat (map (\<lambda>n. case find (\<lambda>c. Q n (f c)) xs of Some c \<Rightarrow> [c] | None \<Rightarrow> []) ns))
     = concat (map (\<lambda>n. case find (Q n) (map f xs) of Some c \<Rightarrow> [c] | None \<Rightarrow> []) ns)"
proof -
  have "find (Q n) (map f xs) = map_option f (find (\<lambda>c. Q n (f c)) xs)" for n
    by (induction xs) auto
  then show ?thesis by (induction ns) (auto split: option.splits)
qed

lemma distinct_layerOrder: "distinct layerOrder"
  by (simp add: layerOrder_def LAYER_background_def LAYER_decorative_def LAYER_branding_def
      LAYER_content_def js_def)

lemma organizeLayerOrder_Parent:
  "organizeLayerOrder (Parent a cs) = Parent a (firstNamed layerOrder cs @ remaining layerOrder cs)"
proof (cases "cs = []")
  case True
  have "firstNamed ns [] = []" for ns by (induction ns) (simp_all add: firstNamed_def)
  moreover have "remaining ns [] = []" for ns by (induction ns) (simp_all add: remaining_def)
  ultimately show ?thesis using True by (simp add: organizeLayerOrder_def)
next
  case False
  define T where "T = zip [0..<length cs] cs"
  define P where "P = (\<lambda>nm (c :: nat \<times> Node). nameOf (snd c) = nm)"
  define ordered where
    "ordered = concat (map (\<lambda>nm. case find (P nm) T of Some c \<Rightarrow> [c] | None \<Rightarrow> []) layerOrder)"
  define others where "others = filter (\<lambda>c. c \<notin> set ordered) T"
  have excl: "\<And>n m c. P n c \<Longrightarrow> P m c \<Longrightarrow> n = m" by (simp add: P_def)
  have snd_T: "map snd T = cs" by (simp add: T_def)
  have dT: "distinct T" unfolding T_def by (rule distinct_zipI1) simp
  have d_ord: "distinct ordered"
    unfolding ordered_def using excl distinct_layerOrder by (rule distinct_picks)
  have d_all: "distinct (ordered @ others)"
    using d_ord dT by (auto simp: others_def)
  have "filter (\<lambda>x. x \<notin> set (ordered @ others)) T = []"
    by (auto simp: others_def filter_empty_conv)
  with fold_insertChild0 [OF dT d_all]
  have final: "fold insertChild0 (rev (ordered @ others)) T = ordered @ others" by simp
  have "\<forall>nm \<in> set layerOrder. find (P nm) T = find (P nm) T" by simp
  from others_fold_dropFirst [of P, OF excl distinct_layerOrder dT this]
  have "others = fold (\<lambda>n. dropFirst (P n)) layerOrder T"
    by (simp add: others_def ordered_def)
  then have "map snd others = remaining layerOrder cs"
    using map_fold_dropFirst [of snd "\<lambda>nm c. nameOf c = nm" layerOrder T]
    by (simp add: P_def remaining_def snd_T)
  moreover have "map snd ordered = firstNamed layerOrder cs"
    using map_picks [of snd "\<lambda>nm c. nameOf c = nm" T layerOrder]
    by (simp add: ordered_def P_def firstNamed_def snd_T)
  ultimately have "map snd (fold insertChild0 (rev (ordered @ others)) T)
      = firstNamed layerOrder cs @ remaining layerOrder cs"
    using final by simp
  then show ?thesis
    using False by (simp add: organizeLayerOrder_def Let_def T_def ordered_def others_def P_def)
qed

lemma firstNamed_dropFirst:
  "n \<notin> set ns \<Longrightarrow> firstNamed ns (dropFirst (\<lambda>c. nameOf c = n) cs) = firstNamed ns cs"
proof -
  assume n: "n \<notin> set ns"
  have "find (\<lambda>c. nameOf c = m) (dropFirst (\<lambda>c. nameOf c = n) cs) = find (\<lambda>c. nameOf c = m) cs"
    if "m \<in> set ns" for m
    using that n by (intro find_dropFirst_other) auto
  then show ?thesis by (simp add: firstNamed_def cong: map_cong)
qed

lemma reorder_Cons:
  "n \<notin> set ns \<Longrightarrow>
   firstNamed (n # ns) cs @ remaining (n # ns) cs =
     (case find (\<lambda>c. nameOf c = n) cs of Some c \<Rightarrow> [c] | None \<Rightarrow> [])
       @ firstNamed ns (dropFirst (\<lambda>c. nameOf c = n) cs)
       @ remaining ns (dropFirst (\<lambda>c. nameOf c = n) cs)"
  using firstNamed_dropFirst [of n ns cs] by (simp add: firstNamed_def remaining_def)

lemma mset_find_dropFirst:
  "mset (case find Q xs of Some c \<Rightarrow> [c] | None \<Rightarrow> []) + mset (dropFirst Q xs) = mset xs"
  by (induction xs) auto

lemma mset_reorder:
  "distinct ns \<Longrightarrow> mset (firstNamed ns cs @ remaining ns cs) = mset cs"
proof (induction ns arbitrary: cs)
  case Nil
  then show ?case by (simp add: firstNamed_def remaining_def)
next
  case (Cons n ns)
  then have n: "n \<notin> set ns" and d: "distinct ns" by simp_all
  show ?case
    unfolding reorder_Cons [OF n]
    using Cons.IH [OF d, of "dropFirst (\<lambda>c. nameOf c = n) cs"]
      mset_find_dropFirst [of "\<lambda>c. nameOf c = n" cs]
    by simp
qed

lemma subseq_dropFirst: "subseq (dropFirst Q xs) xs"
  by (induction xs) auto

lemma subseq_remaining: "subseq (remaining ns cs) cs"
proof (induction ns arbitrary: cs)
  case Nil
  then show ?case by (simp add: remaining_def)
next
  case (Cons n ns)
  have "subseq (remaining ns (dropFirst (\<lambda>c. nameOf c = n) cs)) (dropFirst (\<lambda>c. nameOf c = n) cs)"
    by (rule Cons.IH)
  moreover have "subseq (dropFirst (\<lambda>c. nameOf c = n) cs) cs" by (rule subseq_dropFirst)
  ultimately have "subseq (remaining ns (dropFirst (\<lambda>c. nameOf c = n) cs)) cs"
    by (rule subseq_order.trans)
  then show ?case by (simp add: remaining_def)
qed

lemma dropFirst_none: "find Q xs = None \<Longrightarrow> dropFirst Q xs = xs"
  by (induction xs) (auto split: if_splits)

lemma reorder_idem:
  "distinct ns \<Longrightarrow>
   firstNamed ns (firstNamed ns cs @ remaining ns cs)
     @ remaining ns (firstNamed ns cs @ remaining ns cs)
   = firstNamed ns cs @ remaining ns cs"
proof (induction ns arbitrary: cs)
  case Nil
  then show ?case by (simp add: firstNamed_def remaining_def)
next
  case (Cons n ns)
  then have n: "n \<notin> set ns" and d: "distinct ns" by simp_all
  let ?Q = "\<lambda>c. nameOf c = n"
  let ?r = "firstNamed (n # ns) cs @ remaining (n # ns) cs"
  show ?case
  proof (cases "find ?Q cs")
    case None
    then have r: "?r = firstNamed ns cs @ remaining ns cs"
      using reorder_Cons [OF n, of cs] by (simp add: dropFirst_none)
    have "set ?r = set cs"
      using mset_reorder [OF Cons.prems, of cs] by (metis set_mset_mset)
    with None have none': "find ?Q ?r = None" by (simp add: find_None_iff)
    have "firstNamed (n # ns) ?r @ remaining (n # ns) ?r
        = firstNamed ns ?r @ remaining ns ?r"
      using reorder_Cons [OF n, of ?r] none' by (simp add: dropFirst_none)
    also have "\<dots> = ?r" unfolding r by (rule Cons.IH [OF d])
    finally show ?thesis .
  next
    case (Some x)
    let ?cs' = "dropFirst ?Q cs"
    have r: "?r = x # (firstNamed ns ?cs' @ remaining ns ?cs')"
      using reorder_Cons [OF n, of cs] Some by simp
    from Some have "?Q x" by (auto simp: find_Some_iff)
    then have f: "find ?Q (x # (firstNamed ns ?cs' @ remaining ns ?cs')) = Some x"
      and dr: "dropFirst ?Q (x # (firstNamed ns ?cs' @ remaining ns ?cs'))
          = firstNamed ns ?cs' @ remaining ns ?cs'"
      by simp_all
    have "firstNamed (n # ns) ?r @ remaining (n # ns) ?r
        = x # (firstNamed ns (firstNamed ns ?cs' @ remaining ns ?cs')
               @ remaining ns (firstNamed ns ?cs' @ remaining ns ?cs'))"
      unfolding reorder_Cons [OF n, of ?r] unfolding r f dr by simp
    also have "\<dots> = x # (firstNamed ns ?cs' @ remaining ns ?cs')"
      using Cons.IH [OF d, of ?cs'] by simp
    finally show ?thesis using r by simp
  qed
qed

lemma organizeLayerOrder_idem:
  "organizeLayerOrder (organizeLayerOrder t) = organizeLayerOrder t"
proof (cases t)
  case (Leaf a)
  then show ?thesis by (simp add: organizeLayerOrder_def)
next
  case (Parent a cs)
  then show ?thesis
    by (simp add: organizeLayerOrder_Parent reorder_idem [OF distinct_layerOrder])
qed

lemmas layer_defs = LAYER_content_def LAYER_headline_def LAYER_subhead_def LAYER_body_def
  LAYER_cta_def LAYER_tag_def LAYER_branding_def LAYER_logo_def LAYER_decorative_def
  LAYER_glow_def LAYER_background_def

lemma normalized_text_fixed:
  assumes "typeOf n = TEXT"
    and "nameOf n = m"
    and "m = LAYER_headline \<or> m = LAYER_subhead \<or> m = LAYER_body \<or> m = LAYER_cta \<or> m = LAYER_tag"
  shows "getNormalizedName host n = Some m"
  using assms(3)
proof (elim disjE)
  assume "m = LAYER_headline"
  with assms(1,2) show ?thesis
    by (simp add: getNormalizedName_def Let_def layer_defs js_def toLowerCase_def isAscii_def lowerChar_def)
next
  assume "m = LAYER_subhead"
  with assms(1,2) show ?thesis
    by (simp add: getNormalizedName_def Let_def layer_defs js_def toLowerCase_def isAscii_def lowerChar_def)
next
  assume "m = LAYER_body"
  with assms(1,2) show ?thesis
    by (simp add: getNormalizedName_def Let_def layer_defs js_def toLowerCase_def isAscii_def lowerChar_def)
next
  assume "m = LAYER_cta"
  with assms(1,2) show ?thesis
    by (simp add: getNormalizedName_def Let_def layer_defs js_def toLowerCase_def isAscii_def lowerChar_def)
next
  assume "m = LAYER_tag"
  with assms(1,2) show ?thesis
    by (simp add: getNormalizedName_def Let_def layer_defs js_def toLowerCase_def isAscii_def lowerChar_def)
qed

lemma normalized_group_fixed:
  assumes "typeOf n = FRAME \<or> typeOf n = GROUP"
    and "nameOf n = m"
    and "m = LAYER_content \<or> m = LAYER_branding \<or> m = LAYER_decorative \<or> m = LAYER_background"
  shows "getNormalizedName host n = Some m"
  using assms(3)
proof (elim disjE)
  assume "m = LAYER_content"
  with assms(1,2) show ?thesis
    by (auto simp add: getNormalizedName_def Let_def layer_defs js_def toLowerCase_def isAscii_def lowerChar_def)
next
  assume "m = LAYER_branding"
  with assms(1,2) show ?thesis
    by (auto simp add: getNormalizedName_def Let_def layer_defs js_def toLowerCase_def isAscii_def lowerChar_def)
next
  assume "m = LAYER_decorative"
  with assms(1,2) show ?thesis
    by (auto simp add: getNormalizedName_def Let_def layer_defs js_def toLowerCase_def isAscii_def lowerChar_def)
next
  assume "m = LAYER_background"
  with assms(1,2) show ?thesis
    by (auto simp add: getNormalizedName_def Let_def layer_defs js_def toLowerCase_def isAscii_def lowerChar_def)
qed

lemma normalized_logo_fixed:
  assumes "typeOf n \<noteq> TEXT" "typeOf n \<noteq> FRAME" "typeOf n \<noteq> GROUP" and "nameOf n = LAYER_logo"
  shows "getNormalizedName host n = Some LAYER_logo"
  using assms
  by (simp add: getNormalizedName_def Let_def layer_defs js_def toLowerCase_def isAscii_def lowerChar_def)

lemma normalized_glow_fixed:
  assumes "typeOf n = ELLIPSE" and "nameOf n = LAYER_glow"
  shows "getNormalizedName host n = Some LAYER_glow"
  using assms
  by (simp add: getNormalizedName_def Let_def layer_defs js_def toLowerCase_def isAscii_def lowerChar_def)

lemma getNormalizedName_cases:
  assumes "getNormalizedName host n = Some m"
  shows "(typeOf n = TEXT \<and>
            (m = LAYER_headline \<or> m = LAYER_subhead \<or> m = LAYER_body \<or> m = LAYER_cta \<or> m = LAYER_tag))
       \<or> ((typeOf n = FRAME \<or> typeOf n = GROUP) \<and>
            (m = LAYER_content \<or> m = LAYER_branding \<or> m = LAYER_decorative \<or> m = LAYER_background))
       \<or> (typeOf n \<noteq> TEXT \<and> typeOf n \<noteq> FRAME \<and> typeOf n \<noteq> GROUP \<and> m = LAYER_logo)
       \<or> (typeOf n = ELLIPSE \<and> m = LAYER_glow)"
  using assms unfolding getNormalizedName_def Let_def
  by (simp split: if_splits)

lemma typeOf_mapAttrs_name [simp]: "typeOf (mapAttrs (\<lambda>a. a\<lparr>name := m\<rparr>) n) = typeOf n"
  by (cases n) (simp_all add: typeOf_def)

lemma nameOf_mapAttrs_name [simp]: "nameOf (mapAttrs (\<lambda>a. a\<lparr>name := m\<rparr>) n) = m"
  by (cases n) (simp_all add: nameOf_def)

lemma getNormalizedName_fixed:
  assumes "getNormalizedName host n = Some m"
  shows "getNormalizedName host (mapAttrs (\<lambda>a. a\<lparr>name := m\<rparr>) n) = Some m"
proof -
  let ?n' = "mapAttrs (\<lambda>a. a\<lparr>name := m\<rparr>) n"
  have nm: "nameOf ?n' = m" by simp
  consider
    (istext) "typeOf n = TEXT"
      "m = LAYER_headline \<or> m = LAYER_subhead \<or> m = LAYER_body \<or> m = LAYER_cta \<or> m = LAYER_tag"
  | (group) "typeOf n = FRAME \<or> typeOf n = GROUP"
      "m = LAYER_content \<or> m = LAYER_branding \<or> m = LAYER_decorative \<or> m = LAYER_background"
  | (logo) "typeOf n \<noteq> TEXT" "typeOf n \<noteq> FRAME" "typeOf n \<noteq> GROUP" "m = LAYER_logo"
  | (glow) "typeOf n = ELLIPSE" "m = LAYER_glow"
    using getNormalizedName_cases [OF assms] by blast
  then show ?thesis
  proof cases
    case istext
    then show ?thesis by (intro normalized_text_fixed [OF _ nm]) simp_all
  next
    case group
    then show ?thesis by (intro normalized_group_fixed [OF _ nm]) simp_all
  next
    case logo
    then show ?thesis using normalized_logo_fixed [of ?n'] by simp
  next
    case glow
    then show ?thesis using normalized_glow_fixed [of ?n'] by simp
  qed
qed

lemma getNormalizedName_attrs:
  "attrs t = attrs t' \<Longrightarrow> getNormalizedName host t = getNormalizedName host t'"
  by (simp add: getNormalizedName_def nameOf_def typeOf_def)

lemma attrs_normalizeLayerNames [simp]: "attrs (normalizeLayerNames host t) = attrs t"
  by (cases t) simp_all

lemma attrs_mapAttrs [simp]: "attrs (mapAttrs f t) = f (attrs t)"
  by (cases t) simp_all

lemma normalizeLayerNames_mapAttrs:
  "normalizeLayerNames host (mapAttrs f t) = mapAttrs f (normalizeLayerNames host t)"
  by (cases t) simp_all

lemma renameChild_normalize:
  "renameChild host (normalizeLayerNames host t) = normalizeLayerNames host (renameChild host t)"
proof -
  have "getNormalizedName host (normalizeLayerNames host t) = getNormalizedName host t"
    by (rule getNormalizedName_attrs) simp
  then show ?thesis
    by (simp add: renameChild_def normalizeLayerNames_mapAttrs split: option.splits)
qed

lemma renameChild_idem: "renameChild host (renameChild host t) = renameChild host t"
proof (cases "getNormalizedName host t")
  case None
  then show ?thesis by (simp add: renameChild_def)
next
  case (Some m)
  then show ?thesis using getNormalizedName_fixed [OF Some]
    by (cases t) (simp_all add: renameChild_def)
qed

lemma normalize_twice_renamed:
  assumes "normalizeLayerNames host (normalizeLayerNames host c) = normalizeLayerNames host c"
  shows "normalizeLayerNames host (renameChild host (normalizeLayerNames host (renameChild host c)))
      = normalizeLayerNames host (renameChild host c)"
proof -
  have "normalizeLayerNames host (renameChild host (normalizeLayerNames host (renameChild host c)))
      = normalizeLayerNames host (normalizeLayerNames host (renameChild host (renameChild host c)))"
    by (simp only: renameChild_normalize)
  also have "\<dots> = normalizeLayerNames host (normalizeLayerNames host (renameChild host c))"
    by (simp only: renameChild_idem)
  also have "\<dots> = normalizeLayerNames host (renameChild host (normalizeLayerNames host c))"
    by (simp only: renameChild_normalize)
  also have "\<dots> = renameChild host (normalizeLayerNames host (normalizeLayerNames host c))"
    by (simp only: renameChild_normalize [symmetric])
  also have "\<dots> = renameChild host (normalizeLayerNames host c)"
    by (simp only: assms)
  also have "\<dots> = normalizeLayerNames host (renameChild host c)"
    by (simp only: renameChild_normalize)
  finally show ?thesis .
qed

lemma normalizeLayerNames_idem:
  "normalizeLayerNames host (normalizeLayerNames host t) = normalizeLayerNames host t"
proof (induction t)
  case (Leaf a)
  then show ?case by simp
next
  case (Parent a cs)
  have "normalizeLayerNames host (renameChild host (normalizeLayerNames host (renameChild host c)))
      = normalizeLayerNames host (renameChild host c)" if "c \<in> set cs" for c
    using Parent.IH [OF that] by (rule normalize_twice_renamed)
  then show ?case by simp
qed

lemma normalize_renamed_fixed:
  "normalizeLayerNames host (renameChild host (normalizeLayerNames host (renameChild host c)))
     = normalizeLayerNames host (renameChild host c)"
  using normalizeLayerNames_idem [of host c] by (rule normalize_twice_renamed)

lemma normalize_after_organize:
  "normalizeLayerNames host (organizeLayerOrder (normalizeLayerNames host t))
     = organizeLayerOrder (normalizeLayerNames host t)"
proof (cases t)
  case (Leaf a)
  then show ?thesis by (simp add: organizeLayerOrder_def)
next
  case (Parent a cs)
  let ?cs = "map (\<lambda>child. normalizeLayerNames host (renameChild host child)) cs"
  let ?r = "firstNamed layerOrder ?cs @ remaining layerOrder ?cs"
  have sets: "set ?r = set ?cs"
    using mset_reorder [OF distinct_layerOrder, of ?cs] by (metis set_mset_mset)
  have fixed: "normalizeLayerNames host (renameChild host x) = x" if "x \<in> set ?r" for x
  proof -
    from that sets have "x \<in> set ?cs" by blast
    then obtain c where "x = normalizeLayerNames host (renameChild host c)" by auto
    then show ?thesis by (simp only: normalize_renamed_fixed)
  qed
  have "map (\<lambda>child. normalizeLayerNames host (renameChild host child)) ?r = ?r"
    by (rule map_idI) (rule fixed)
  with Parent show ?thesis by (simp add: organizeLayerOrder_Parent)
qed

text \<open>Claim C7. \<open>applyNaming\<close> is idempotent: on every tree, a second application changes
  no name and no order of children.\<close>

theorem applyNaming_idempotent: "applyNaming host (applyNaming host t) = applyNaming host t"
  by (simp add: applyNaming_def normalize_after_organize organizeLayerOrder_idem)

section \<open>Properties of AuditEngine\<close>

lemma collectWarnings_messages:
  "\<forall>c \<in> set cs. \<not> AuditCheck.passed c \<and> severity c = Warning \<longrightarrow> message c \<noteq> [] \<Longrightarrow>
   collectWarnings cs = map message (filter (\<lambda>c. \<not> AuditCheck.passed c \<and> severity c = Warning) cs)"
  by (induction cs) auto

lemma layerStructure_failure_is_error:
  "\<not> AuditCheck.passed (checkLayerStructure frame) \<Longrightarrow> severity (checkLayerStructure frame) = Error"
  by (auto simp: checkLayerStructure_def validate_def Let_def split: if_splits)

lemma exportQuality_failure_is_error:
  "\<not> AuditCheck.passed (checkExportQuality host frame) \<Longrightarrow>
   severity (checkExportQuality host frame) = Error"
  by (auto simp: checkExportQuality_def Let_def split: if_splits)

lemma logoPlacement_message: "message (checkLogoPlacement frame) \<noteq> []"
  by (simp add: checkLogoPlacement_def js_def split: option.splits)

lemma checks_audit:
  "checks (audit host eng frame) =
     [checkColorCompliance frame, checkTypography eng frame, checkLogoPlacement frame,
      checkLayerStructure frame, checkSafeZones host frame, checkContrastRatio frame,
      checkExportQuality host frame]"
  by (simp add: audit_def Let_def)

lemma score_range:
  assumes "k \<le> (7::nat)"
  shows "0 \<le> round (of_nat k / of_nat 7 * (100::rat)) \<and> round (of_nat k / of_nat 7 * (100::rat)) \<le> 100"
proof -
  have "0 \<le> of_nat k / of_nat 7 * (100::rat)" by simp
  then have "round (0::rat) \<le> round (of_nat k / of_nat 7 * (100::rat))" by (rule round_mono)
  moreover have "of_nat k / of_nat 7 * (100::rat) \<le> 100" using assms by simp
  then have "round (of_nat k / of_nat 7 * (100::rat)) \<le> round (100::rat)" by (rule round_mono)
  ultimately show ?thesis by simp
qed

text \<open>Claim C5. On every tree \<open>audit\<close> runs seven checks; the score is
  \<open>round (100 * passedCount / 7)\<close> and lies between 0 and 100; the result has not passed
  exactly when a check of severity error has not passed; and the warnings are the messages
  of the checks of severity warning that have not passed, in the order of the checks.\<close>

theorem audit_aggregation:
  "length (checks (audit host eng frame)) = 7 \<and>
   score (audit host eng frame) =
     round (100 * of_nat (length (filter AuditCheck.passed (checks (audit host eng frame)))) / (7::rat)) \<and>
   0 \<le> score (audit host eng frame) \<and> score (audit host eng frame) \<le> 100 \<and>
   (\<not> AuditResult.passed (audit host eng frame) \<longleftrightarrow>
      (\<exists>c \<in> set (checks (audit host eng frame)). severity c = Error \<and> \<not> AuditCheck.passed c)) \<and>
   warnings (audit host eng frame) =
     map message (filter (\<lambda>c. \<not> AuditCheck.passed c \<and> severity c = Warning)
                    (checks (audit host eng frame)))"
proof -
  let ?cs = "[checkColorCompliance frame, checkTypography eng frame, checkLogoPlacement frame,
      checkLayerStructure frame, checkSafeZones host frame, checkContrastRatio frame,
      checkExportQuality host frame]"
  let ?k = "length (filter AuditCheck.passed ?cs)"
  have len: "length ?cs = 7" by simp
  have k: "?k \<le> 7" using length_filter_le [of AuditCheck.passed ?cs] by (simp only: len)
  have sc: "score (audit host eng frame) = round (of_nat ?k / of_nat 7 * (100::rat))"
    by (simp add: audit_def Let_def)
  have pass: "AuditResult.passed (audit host eng frame) \<longleftrightarrow>
      filter (\<lambda>c. severity c = Error \<and> \<not> AuditCheck.passed c) ?cs = []"
    by (simp add: audit_def Let_def)
  have "\<forall>c \<in> set ?cs. \<not> AuditCheck.passed c \<and> severity c = Warning \<longrightarrow> message c \<noteq> []"
    using layerStructure_failure_is_error [of frame] exportQuality_failure_is_error [of host frame]
      logoPlacement_message [of frame]
    by (auto simp: checkColorCompliance_def checkTypography_def checkSafeZones_def
        checkContrastRatio_def Let_def split: option.splits)
  then have w: "collectWarnings ?cs
      = map message (filter (\<lambda>c. \<not> AuditCheck.passed c \<and> severity c = Warning) ?cs)"
    by (rule collectWarnings_messages)
  have ws: "warnings (audit host eng frame) = collectWarnings ?cs"
    by (simp add: audit_def Let_def)
  have 1: "length (checks (audit host eng frame)) = 7" by (simp only: checks_audit len)
  have 2: "score (audit host eng frame) =
     round (100 * of_nat (length (filter AuditCheck.passed (checks (audit host eng frame)))) / (7::rat))"
    unfolding checks_audit sc by (simp add: mult.commute)
  have 3: "0 \<le> score (audit host eng frame) \<and> score (audit host eng frame) \<le> 100"
    unfolding sc using k by (rule score_range)
  have 4: "\<not> AuditResult.passed (audit host eng frame) \<longleftrightarrow>
      (\<exists>c \<in> set (checks (audit host eng frame)). severity c = Error \<and> \<not> AuditCheck.passed c)"
    unfolding checks_audit pass by (simp only: filter_empty_conv) blast
  have 5: "warnings (audit host eng frame) =
     map message (filter (\<lambda>c. \<not> AuditCheck.passed c \<and> severity c = Warning)
                    (checks (audit host eng frame)))"
    unfolding checks_audit ws by (rule w)
  from 1 2 3 4 5 show ?thesis by blast
qed

section \<open>Properties of the rounding of doubles\<close>

lemma bitLength_0 [simp]: "bitLength 0 = 0"
  by (simp add: bitLength.simps)

lemma bitLength_1 [simp]: "bitLength 1 = 1"
  by (simp add: bitLength.simps [of 1])

lemma bitLength_numeral [simp]:
  "bitLength (numeral k) = 1 + bitLength (numeral k div 2)"
  by (subst bitLength.simps) simp












section \<open>Properties of FeedbackSystem\<close>





lemma fl_0 [simp]: "fl 0 = 0"
  by (simp add: fl_def)



lemma set_firstOccurrences [simp]: "set (firstOccurrences ks) = set ks"
  by (simp add: firstOccurrences_def)

lemma distinct_firstOccurrences [simp]: "distinct (firstOccurrences ks)"
  by (simp add: firstOccurrences_def)



text \<open>The order of the common issues, as the specification words it: by count descending,
  and among entries of one count in the order of first occurrence.\<close>

lemma topIssues_descending: "sorted (map (\<lambda>entry. - int (snd entry)) (topIssues ks))"
  unfolding topIssues_def take_map [symmetric]
  by (rule sorted_wrt_take) (rule sorted_sort_key)

lemma topIssues_ties:
  "prefix (filter (\<lambda>entry. snd entry = c) (topIssues ks))
          (filter (\<lambda>entry. snd entry = c) (map (\<lambda>k. (k, count_list ks k)) (firstOccurrences ks)))"
proof -
  let ?es = "map (\<lambda>k. (k, count_list ks k)) (firstOccurrences ks)"
  let ?f = "\<lambda>entry :: jsstring \<times> nat. - int (snd entry)"
  have "filter (\<lambda>entry. ?f entry = - int c) (sort_key ?f ?es) = filter (\<lambda>entry. ?f entry = - int c) ?es"
    by (rule sort_key_stable)
  then have eq: "filter (\<lambda>entry. snd entry = c) (sort_key ?f ?es) = filter (\<lambda>entry. snd entry = c) ?es"
    by simp
  have "filter (\<lambda>entry. snd entry = c) (sort_key ?f ?es)
      = filter (\<lambda>entry. snd entry = c) (take 5 (sort_key ?f ?es))
        @ filter (\<lambda>entry. snd entry = c) (drop 5 (sort_key ?f ?es))"
    by (simp only: filter_append [symmetric] append_take_drop_id)
  then have "prefix (filter (\<lambda>entry. snd entry = c) (take 5 (sort_key ?f ?es)))
               (filter (\<lambda>entry. snd entry = c) (sort_key ?f ?es))"
    by (rule prefixI)
  then show ?thesis by (simp only: topIssues_def eq)
qed



section \<open>Properties of ThemeEngine and evaluation on the samples\<close>

lemmas theme_defs = THEMES_def objectPrototypeKeys_def inheritedValue_def THEMES_get_def
  DEFAULT_COLORS_def hexDigit_def hexToRgb_def propertyKey_def truthyAt_def getColor_def
  applyGradientBackground_def applyBackgroundColor_def applyTextColors_def
  applyAccentColors_def applyGlowEffect_def ThemeEngine_apply_def typeOf_def nameOf_def

lemma apply_unknown_theme:
  assumes "themeName \<notin> set (map fst THEMES)" and "themeName \<notin> set objectPrototypeKeys"
  shows "ThemeEngine_apply eng frame themeName = frame"
proof -
  from assms(1) have "map_of THEMES themeName = None"
    by (simp add: map_of_eq_None_iff)
  with assms(2) show ?thesis by (simp add: ThemeEngine_apply_def THEMES_get_def)
qed

text \<open>Claim C6 fails on the code: \<^verbatim>\<open>constructor\<close> is none of the five registered themes, and
  \<open>apply\<close> with it paints the frame and its texts black and hides the glow.\<close>

theorem apply_constructor_repaints:
  "ThemeEngine_apply plainThemeEngine sampleFrame (js ''constructor'') = sampleFrameBlack"
  by (simp add: theme_defs layer_defs js_def white_def black_def mkAttrs_def sampleFrame_def
      sampleFrameBlack_def plainThemeEngine_def)

lemmas layerManager_defs = getNormalizedName_def renameChild_def layerOrder_def
  organizeLayerOrder_def applyNaming_def insertChild0_def getLayerKey_def mapStructure_def
  validate_def typeOf_def nameOf_def

lemmas audit_defs = SAFE_ZONE_margin_def SAFE_ZONE_minPixels_def checkColorCompliance_def
  fontOrInter_def checkTypography_def checkLogoPlacement_def checkLayerStructure_def
  checkSafeZones_def checkContrastRatio_def checkExportQuality_def audit_def

text \<open>Claim C8, as amended. The children after the reordering are the first child named
  background, the first named decorative, the first named branding and the first named
  content, for the names that occur and in that order, followed by all remaining children
  in their original relative order; a further child that bears one of the four names
  stays among the remaining ones. The sequence is a permutation of the one before.\<close>

theorem organizeLayerOrder_first_named:
  "organizeLayerOrder (Parent a cs) = Parent a (firstNamed layerOrder cs @ remaining layerOrder cs) \<and>
   mset (firstNamed layerOrder cs @ remaining layerOrder cs) = mset cs \<and>
   subseq (remaining layerOrder cs) cs"
  using organizeLayerOrder_Parent [of a cs] mset_reorder [OF distinct_layerOrder, of cs]
    subseq_remaining [of layerOrder cs]
  by simp

text \<open>Claim C8, as amended, at a frame with a picture and two backgrounds.\<close>

theorem organizeLayerOrder_first_named_witness:
  "organizeLayerOrder twoBackgrounds
     = Parent (mkAttrs ''2:1'' ''Asset Frame'' FRAME) [bgNodeA, heroNode, bgNodeB] \<and>
   mset [bgNodeA, heroNode, bgNodeB] = mset [heroNode, bgNodeA, bgNodeB]"
proof -
  have f: "firstNamed layerOrder [heroNode, bgNodeA, bgNodeB] = [bgNodeA]"
    by (simp add: firstNamed_def remaining_def layerManager_defs layer_defs js_def heroNode_def
        bgNodeA_def bgNodeB_def mkAttrs_def)
  have r: "remaining layerOrder [heroNode, bgNodeA, bgNodeB] = [heroNode, bgNodeB]"
    by (simp add: firstNamed_def remaining_def layerManager_defs layer_defs js_def heroNode_def
        bgNodeA_def bgNodeB_def mkAttrs_def)
  from organizeLayerOrder_first_named [of "mkAttrs ''2:1'' ''Asset Frame'' FRAME"
      "[heroNode, bgNodeA, bgNodeB]"]
  show ?thesis by (simp add: f r twoBackgrounds_def)
qed

text \<open>Claim C8 fails as stated: the second child named background comes after a child of
  another name, where the partition by name puts it before.\<close>

theorem second_background_stays_behind:
  "children (organizeLayerOrder twoBackgrounds) = [bgNodeA, heroNode, bgNodeB] \<and>
   partitionByName layerOrder (children twoBackgrounds) = [bgNodeA, bgNodeB, heroNode] \<and>
   nameOf bgNodeB = LAYER_background \<and> nameOf heroNode = js ''hero''"
  by (simp add: partitionByName_def layerManager_defs layer_defs js_def white_def mkAttrs_def
      heroNode_def bgNodeA_def bgNodeB_def twoBackgrounds_def)

text \<open>Claim C7, at a frame whose layers are named freely.\<close>

theorem applyNaming_idempotent_witness:
  "applyNaming sampleHost (applyNaming sampleHost messyFrame) = applyNaming sampleHost messyFrame \<and>
   map nameOf (children (applyNaming sampleHost messyFrame))
     = [js ''background'', js ''content'', js ''headline'', js ''background'']"
proof -
  have "map nameOf (children (applyNaming sampleHost messyFrame))
     = [js ''background'', js ''content'', js ''headline'', js ''background'']"
    by (simp add: layerManager_defs layer_defs js_def toLowerCase_def isAscii_def lowerChar_def
        messyFrame_def mkAttrs_def)
  with applyNaming_idempotent [of sampleHost messyFrame] show ?thesis by simp
qed

text \<open>Claim C5, at a frame of 500 by 150 with a content group and no logo: five checks of
  seven pass, the export check fails with severity error.\<close>

theorem audit_aggregation_witness:
  "length (checks (audit sampleHost plainAuditEngine smallFrame)) = 7 \<and>
   score (audit sampleHost plainAuditEngine smallFrame) = 71 \<and>
   \<not> AuditResult.passed (audit sampleHost plainAuditEngine smallFrame) \<and>
   warnings (audit sampleHost plainAuditEngine smallFrame) = [js ''Logo layer not found'']"
proof -
  have "map AuditCheck.passed (checks (audit sampleHost plainAuditEngine smallFrame))
      = [True, True, False, True, True, True, False]"
    by (simp add: audit_defs layerManager_defs layer_defs js_def smallFrame_def mkAttrs_def
        plainAuditEngine_def sampleHost_def Let_def)
  then have "length (filter AuditCheck.passed (checks (audit sampleHost plainAuditEngine smallFrame))) = 5"
    by (simp add: checks_audit)
  moreover have "\<not> AuditResult.passed (audit sampleHost plainAuditEngine smallFrame)"
    by (simp add: audit_defs layerManager_defs layer_defs js_def smallFrame_def mkAttrs_def
        plainAuditEngine_def sampleHost_def Let_def)
  moreover have "warnings (audit sampleHost plainAuditEngine smallFrame) = [js ''Logo layer not found'']"
    by (simp add: audit_defs layerManager_defs layer_defs js_def smallFrame_def mkAttrs_def
        plainAuditEngine_def sampleHost_def Let_def)
  moreover have "round (500 / 7 :: rat) = 71"
    by (rule round_unique) simp_all
  ultimately show ?thesis
    using audit_aggregation [of sampleHost plainAuditEngine smallFrame] by simp
qed


end
